theory Spec2Isabelle
  imports Complex_Main "HOL-Library.AList" "HOL-Library.Sublist"
begin


section \<open>Data model\<close>

text \<open>
  The JavaScript sources share allocation objects by reference: the object created by
  \<^verbatim>\<open>recordAllocation\<close> is stored in the \<^verbatim>\<open>allocations\<close> map, pushed on
  a bucket array and on the timeline, and later mutated in place by
  \<^verbatim>\<open>recordDeallocation\<close>. The model therefore keeps an explicit object store: a
  reference is a natural number, the store maps every reference to the object it denotes,
  and maps, arrays and bug records hold references. A JavaScript reference is never
  dangling, so the store is a total function; \<open>nextRef\<close> is the first reference not
  yet handed out.

  Numbers are modelled as integers (sizes, ids and millisecond timestamps are integers in
  every call the sources make). Each reading of \<^verbatim>\<open>Date.now()\<close> is a parameter of
  the operation that reads it. A JavaScript \<^verbatim>\<open>Map\<close> is an association list in
  insertion order: \<open>map_of\<close> is \<^verbatim>\<open>get\<close>/\<^verbatim>\<open>has\<close> and
  \<open>AList.update\<close> is \<^verbatim>\<open>set\<close> (an existing key keeps its place, a new key
  goes last).

  Field names carry a short prefix where two objects of the sources use the same
  property name (\<open>a_\<close> for an allocation, \<open>b_\<close> for a bug, \<open>p_\<close> for a phase,
  \<open>st_\<close> for a strategy). Where a name of the sources is a keyword of Isabelle,
  another one stands for it: \<open>adj_prev\<close>, \<open>adj_next\<close>, \<open>impact_notes\<close> and
  \<open>stringIncludes\<close> for \<^verbatim>\<open>prev\<close>, \<^verbatim>\<open>next\<close>, \<^verbatim>\<open>notes\<close> and
  \<^verbatim>\<open>includes\<close>.
\<close>

type_synonym ref = nat

type_synonym metadata = "(string \<times> string) list"

datatype status = Allocated | Freed

record allocation =
  a_id :: int
  a_size :: int
  a_type :: string
  a_timestamp :: int
  a_metadata :: metadata
  a_status :: status
  a_freedAt :: "int option"

datatype bug_type =
  BUFFER_OVERFLOW | USE_AFTER_FREE | DOUBLE_FREE | NULL_DEREFERENCE | TYPE_CONFUSION

text \<open>The \<^verbatim>\<open>details\<close> objects the bug simulator hands to \<^verbatim>\<open>recordBug\<close>.\<close>

datatype bug_log =
    OverflowLog int "int option"   \<comment> \<open>\<^verbatim>\<open>{overflowSize, impactedId}\<close>\<close>
  | UafLog "int option"            \<comment> \<open>\<^verbatim>\<open>{impactedId}\<close>\<close>
  | ConfusionLog string            \<comment> \<open>\<^verbatim>\<open>{wrongType}\<close>\<close>
  | NoDetails                      \<comment> \<open>the default \<^verbatim>\<open>{}\<close>\<close>

datatype timeline_event =
    AllocationEvent int ref           \<comment> \<open>timestamp, allocation\<close>
  | DeallocationEvent int ref         \<comment> \<open>timestamp, allocation\<close>
  | BugEvent int int bug_type bug_log \<comment> \<open>timestamp, sourceId, bugType, details\<close>

record stats =
  totalAllocations :: int
  totalDeallocations :: int
  maxLiveAllocations :: int
  currentLiveAllocations :: int

record heap_analyzer =
  objects :: "ref \<Rightarrow> allocation"
  nextRef :: ref
  allocations :: "(int \<times> ref) list"
  buckets :: "(int \<times> ref list) list"
  timeline :: "timeline_event list"
  nextId :: int
  detectedBucketSizes :: "int list"
  stats :: stats

section \<open>The bucket classifier\<close>

definition bucketSizes :: "int list" where
  "bucketSizes = [8, 16, 32, 48, 64, 80, 96, 112, 128,
                  144, 160, 192, 224, 256, 320, 384,
                  448, 512, 576, 640, 704, 768, 832, 896, 960, 1024]"

text \<open>
  \<^verbatim>\<open>findBucketForSize\<close>. The \<^verbatim>\<open>for ... of\<close> loop returns the first table entry
  that is at least \<open>size\<close>; when it finds none, control falls through to the next
  \<^verbatim>\<open>if\<close>, as in the source. \<^verbatim>\<open>Math.ceil(size / n) * n\<close> is the ceiling of the
  exact quotient.
\<close>

definition findBucketForSize :: "int \<Rightarrow> int" where
  "findBucketForSize size' =
     (if size' \<le> 0 then 0
      else
        (case (if size' \<le> 1024 then find (\<lambda>bucketSize. size' \<le> bucketSize) bucketSizes
               else None) of
           Some bucketSize \<Rightarrow> bucketSize
         | None \<Rightarrow>
             if size' \<le> 4096 then \<lceil>real_of_int size' / 128\<rceil> * 128
             else \<lceil>real_of_int size' / 4096\<rceil> * 4096))"

section \<open>The allocation and bucket tracker (class \<^verbatim>\<open>HeapAnalyzer\<close>)\<close>

definition emptyStats :: stats where
  "emptyStats = \<lparr>totalAllocations = 0, totalDeallocations = 0,
                  maxLiveAllocations = 0, currentLiveAllocations = 0\<rparr>"

text \<open>
  The constructor. No allocation object exists yet; the store of a fresh tracker maps
  every reference to a blank object that nothing refers to.
\<close>

definition blankAllocation :: allocation where
  "blankAllocation = \<lparr>a_id = 0, a_size = 0, a_type = [], a_timestamp = 0,
                        a_metadata = [], a_status = Allocated, a_freedAt = None\<rparr>"

definition newHeapAnalyzer :: heap_analyzer where
  "newHeapAnalyzer =
     \<lparr>objects = (\<lambda>_. blankAllocation), nextRef = 0,
      allocations = [], buckets = [], timeline = [], nextId = 1,
      detectedBucketSizes = [], stats = emptyStats\<rparr>"

text \<open>
  \<^verbatim>\<open>recordAllocation(size, type, metadata)\<close>, with the reading of the clock as first
  argument. It returns the new id and the updated tracker. The new object gets the
  fresh reference \<open>nextRef\<close>.
\<close>

definition recordAllocation ::
  "int \<Rightarrow> int \<Rightarrow> string \<Rightarrow> metadata \<Rightarrow> heap_analyzer \<Rightarrow> int \<times> heap_analyzer" where
  "recordAllocation now size' type' metadata' s =
     (let id' = nextId s;
          allocation = \<lparr>a_id = id', a_size = size', a_type = type', a_timestamp = now,
                        a_metadata = metadata', a_status = Allocated, a_freedAt = None\<rparr>;
          r = nextRef s;
          bucketSize = findBucketForSize size';
          buckets1 = (if map_of (buckets s) bucketSize = None
                      then AList.update bucketSize [] (buckets s) else buckets s);
          bucket = (case map_of buckets1 bucketSize of Some xs \<Rightarrow> xs | None \<Rightarrow> []);
          buckets2 = AList.update bucketSize (bucket @ [r]) buckets1;
          live = currentLiveAllocations (stats s) + 1;
          stats' = \<lparr>totalAllocations = totalAllocations (stats s) + 1,
                    totalDeallocations = totalDeallocations (stats s),
                    maxLiveAllocations =
                      (if live > maxLiveAllocations (stats s) then live
                       else maxLiveAllocations (stats s)),
                    currentLiveAllocations = live\<rparr>
      in (id',
          s\<lparr>objects := (objects s)(r := allocation),
            nextRef := Suc r,
            allocations := AList.update id' r (allocations s),
            buckets := buckets2,
            timeline := timeline s @ [AllocationEvent now r],
            nextId := id' + 1,
            stats := stats'\<rparr>))"

text \<open>
  \<^verbatim>\<open>recordDeallocation(id)\<close> and \<^verbatim>\<open>recordBug(sourceId, bugType, details)\<close>
  return nothing in the source; on an unknown id they write a warning to the console and
  return early. The model returns the warning (if any) with the tracker after the call.
\<close>

datatype warning = DeallocateUnknownId int | BugForUnknownId int

definition recordDeallocation ::
  "int \<Rightarrow> int \<Rightarrow> heap_analyzer \<Rightarrow> warning option \<times> heap_analyzer" where
  "recordDeallocation now id' s =
     (case map_of (allocations s) id' of
        None \<Rightarrow> (Some (DeallocateUnknownId id'), s)
      | Some allocation \<Rightarrow>
          (None,
           s\<lparr>objects := (objects s)
                  (allocation := (objects s allocation)\<lparr>a_status := Freed, a_freedAt := Some now\<rparr>),
             timeline := timeline s @ [DeallocationEvent now allocation],
             stats := (stats s)
                  \<lparr>totalDeallocations := totalDeallocations (stats s) + 1,
                   currentLiveAllocations := currentLiveAllocations (stats s) - 1\<rparr>\<rparr>))"

definition recordBug ::
  "int \<Rightarrow> int \<Rightarrow> bug_type \<Rightarrow> bug_log \<Rightarrow> heap_analyzer \<Rightarrow> warning option \<times> heap_analyzer" where
  "recordBug now sourceId bugType details s =
     (case map_of (allocations s) sourceId of
        None \<Rightarrow> (Some (BugForUnknownId sourceId), s)
      | Some _ \<Rightarrow>
          (None, s\<lparr>timeline := timeline s @ [BugEvent now sourceId bugType details]\<rparr>))"

definition getAllocationsInBucket :: "int \<Rightarrow> heap_analyzer \<Rightarrow> ref list" where
  "getAllocationsInBucket bucketSize s =
     (case map_of (buckets s) bucketSize of Some xs \<Rightarrow> xs | None \<Rightarrow> [])"

definition getActiveBuckets :: "heap_analyzer \<Rightarrow> int list" where
  "getActiveBuckets s = sort (map fst (buckets s))"

definition getActiveAllocations :: "heap_analyzer \<Rightarrow> ref list" where
  "getActiveAllocations s =
     filter (\<lambda>alloc. a_status (objects s alloc) = Allocated) (map snd (allocations s))"

text \<open>
  \<^verbatim>\<open>Array.prototype.findIndex\<close>: the index of the first element that satisfies the
  predicate; \<open>None\<close> stands for the result \<^verbatim>\<open>-1\<close>.
\<close>

fun findIndex :: "('a \<Rightarrow> bool) \<Rightarrow> 'a list \<Rightarrow> nat option" where
  "findIndex P [] = None"
| "findIndex P (x # xs) =
     (if P x then Some 0 else map_option Suc (findIndex P xs))"

record adjacent =
  adj_prev :: "ref option"
  adj_next :: "ref option"

definition findAdjacentAllocations :: "int \<Rightarrow> heap_analyzer \<Rightarrow> adjacent" where
  "findAdjacentAllocations id' s =
     (case map_of (allocations s) id' of
        None \<Rightarrow> \<lparr>adj_prev = None, adj_next = None\<rparr>
      | Some allocation \<Rightarrow>
          (let bucketSize = findBucketForSize (a_size (objects s allocation));
               bucketed = (case map_of (buckets s) bucketSize of Some xs \<Rightarrow> xs | None \<Rightarrow> [])
           in case findIndex (\<lambda>a. a_id (objects s a) = id') bucketed of
                None \<Rightarrow> \<lparr>adj_prev = None, adj_next = None\<rparr>
              | Some index \<Rightarrow>
                  \<lparr>adj_prev = (if index > 0 then Some (bucketed ! (index - 1)) else None),
                   adj_next = (if int index < int (length bucketed) - 1
                           then Some (bucketed ! (index + 1)) else None)\<rparr>))"

text \<open>
  \<^verbatim>\<open>generateBucketStats\<close> and \<^verbatim>\<open>generateTypeStats\<close> build a plain object,
  modelled as an association list from the key to the entry. The utilisation rate is
  the exact quotient. (In \<^verbatim>\<open>generateTypeStats\<close> the test \<^verbatim>\<open>!stats[type]\<close> is
  modelled for type names that are not properties every object inherits.)
\<close>

record bucket_stat =
  bs_totalAllocations :: nat
  bs_activeAllocations :: nat
  bs_freedAllocations :: nat
  bs_utilizationRate :: real

definition generateBucketStats :: "heap_analyzer \<Rightarrow> (int \<times> bucket_stat) list" where
  "generateBucketStats s =
     foldl (\<lambda>st (bucketSize, allocs).
              let active = length (filter (\<lambda>a. a_status (objects s a) = Allocated) allocs);
                  freed = length (filter (\<lambda>a. a_status (objects s a) = Freed) allocs)
              in AList.update bucketSize
                   \<lparr>bs_totalAllocations = length allocs,
                    bs_activeAllocations = active,
                    bs_freedAllocations = freed,
                    bs_utilizationRate =
                      (if length allocs > 0 then real active / real (length allocs) else 0)\<rparr>
                   st)
           [] (buckets s)"

record type_stat =
  ts_count :: int
  ts_totalSize :: int
  ts_active :: int
  ts_freed :: int

definition generateTypeStats :: "heap_analyzer \<Rightarrow> (string \<times> type_stat) list" where
  "generateTypeStats s =
     foldl (\<lambda>st r.
              let allocation = objects s r;
                  cur = (case map_of st (a_type allocation) of
                           None \<Rightarrow> \<lparr>ts_count = 0, ts_totalSize = 0, ts_active = 0, ts_freed = 0\<rparr>
                         | Some e \<Rightarrow> e)
              in AList.update (a_type allocation)
                   \<lparr>ts_count = ts_count cur + 1,
                    ts_totalSize = ts_totalSize cur + a_size allocation,
                    ts_active = (if a_status allocation = Allocated
                                 then ts_active cur + 1 else ts_active cur),
                    ts_freed = (if a_status allocation = Allocated
                                then ts_freed cur else ts_freed cur + 1)\<rparr>
                   st)
           [] (map snd (allocations s))"

text \<open>
  \<^verbatim>\<open>reset\<close> clears the two maps, replaces the timeline and the counters and sets the
  id counter to 1. Objects that something else still refers to stay in the store.
\<close>

definition reset :: "heap_analyzer \<Rightarrow> heap_analyzer" where
  "reset s = s\<lparr>allocations := [], buckets := [], timeline := [], nextId := 1,
               stats := emptyStats\<rparr>"

text \<open>
  The states the tracker can be in: those its public operations produce from a fresh
  tracker, with any arguments and any clock readings.
\<close>

inductive reachable :: "heap_analyzer \<Rightarrow> bool" where
  reachable_new: "reachable newHeapAnalyzer"
| reachable_allocation:
    "reachable s \<Longrightarrow> reachable (snd (recordAllocation now size' type' metadata' s))"
| reachable_deallocation:
    "reachable s \<Longrightarrow> reachable (snd (recordDeallocation now id' s))"
| reachable_bug:
    "reachable s \<Longrightarrow> reachable (snd (recordBug now sourceId bugType details s))"
| reachable_reset:
    "reachable s \<Longrightarrow> reachable (reset s)"

text \<open>
  The invariant of the reachable states that adjacency relies on: every table entry
  \<open>id \<mapsto> r\<close> denotes an object with that id, below the two counters, that is a
  member of the bucket of its size; every member of a bucket is the table's entry for its
  id, and no bucket holds an object twice.
\<close>

definition tracker_inv :: "heap_analyzer \<Rightarrow> bool" where
  "tracker_inv s \<longleftrightarrow>
     (\<forall>i r. map_of (allocations s) i = Some r \<longrightarrow>
        a_id (objects s r) = i \<and> i < nextId s \<and> r < nextRef s
        \<and> r \<in> set (getAllocationsInBucket (findBucketForSize (a_size (objects s r))) s))
     \<and> (\<forall>b rs. map_of (buckets s) b = Some rs \<longrightarrow>
          distinct rs
          \<and> (\<forall>r\<in>set rs. map_of (allocations s) (a_id (objects s r)) = Some r))"

section \<open>The bug simulator (class \<^verbatim>\<open>BugSimulator\<close>)\<close>

datatype severity = Low | Medium | High | Critical | Unknown

text \<open>
  The \<^verbatim>\<open>impact\<close> object of a bug starts as \<^verbatim>\<open>{}\<close>; a property that has not been
  assigned is \<open>None\<close>.
\<close>

record impact =
  severity :: "severity option"
  impact_notes :: "string option"
  corruptedAllocation :: "ref option"
  reusingAllocation :: "ref option"
  originalType :: "string option"
  confusedType :: "string option"
  exampleAllocation :: "ref option"

definition emptyImpact :: impact where
  "emptyImpact = \<lparr>severity = None, impact_notes = None, corruptedAllocation = None,
                   reusingAllocation = None, originalType = None, confusedType = None,
                   exampleAllocation = None\<rparr>"

record bug =
  b_id :: int
  b_type :: bug_type
  b_sourceId :: int
  b_source :: ref
  b_overflowSize :: "int option"
  b_wrongType :: "string option"
  b_timestamp :: int
  b_impact :: impact

text \<open>
  The simulator holds a reference to the tracker; every tracker the sources build a
  simulator (and a strategy generator) on is that one shared tracker, so the model
  nests it.
\<close>

record bug_simulator =
  analyzer :: heap_analyzer
  activeBugs :: "(int \<times> bug) list"
  nextBugId :: int

definition newBugSimulator :: "heap_analyzer \<Rightarrow> bug_simulator" where
  "newBugSimulator an = \<lparr>analyzer = an, activeBugs = [], nextBugId = 1\<rparr>"

text \<open>An object returned as \<^verbatim>\<open>{ error: message }\<close>, or a \<^verbatim>\<open>TypeError\<close> thrown.\<close>

datatype error = Error string | TypeError

text \<open>\<^verbatim>\<open>String.prototype.includes\<close>: \<open>stringIncludes s p\<close> holds when \<open>p\<close> occurs in \<open>s\<close>.\<close>

fun stringIncludes :: "string \<Rightarrow> string \<Rightarrow> bool" where
  "stringIncludes [] p = (p = [])"
| "stringIncludes (c # cs) p = (prefix p (c # cs) \<or> stringIncludes cs p)"

text \<open>
  The two lists that \<^verbatim>\<open>assessOverflowSeverity\<close> and \<^verbatim>\<open>assessUafSeverity\<close> each
  declare, with the same entries.
\<close>

definition criticalTypes :: "string list" where
  "criticalTypes = [''Function'', ''ArrayBuffer'', ''WebAssembly'', ''VTable'']"

definition sensitiveTypes :: "string list" where
  "sensitiveTypes = [''Array'', ''Object'', ''Map'', ''Set'']"

definition assessOverflowSeverity :: "allocation \<Rightarrow> allocation \<Rightarrow> int \<Rightarrow> severity" where
  "assessOverflowSeverity source target overflowSize =
     (if list_ex (\<lambda>type'. stringIncludes (a_type target) type') criticalTypes then Critical
      else if list_ex (\<lambda>type'. stringIncludes (a_type target) type') sensitiveTypes then High
      else if overflowSize > 100 then High
      else if overflowSize > 16 then Medium
      else Low)"

definition assessUafSeverity :: "allocation \<Rightarrow> allocation \<Rightarrow> severity" where
  "assessUafSeverity freed reuser =
     (if list_ex (\<lambda>type'. stringIncludes (a_type reuser) type') criticalTypes then Critical
      else if list_ex (\<lambda>type'. stringIncludes (a_type reuser) type') sensitiveTypes then High
      else if list_ex (\<lambda>type'. stringIncludes (a_type freed) type') criticalTypes then High
      else Medium)"

text \<open>
  \<^verbatim>\<open>simulateOverflow(sourceId, overflowSize)\<close>. The first two arguments are the two
  readings of the clock: the bug's timestamp, and the one \<^verbatim>\<open>recordBug\<close> takes. The
  result is the error object or the bug record, with the simulator after the call.
\<close>

definition simulateOverflow ::
  "int \<Rightarrow> int \<Rightarrow> int \<Rightarrow> int \<Rightarrow> bug_simulator \<Rightarrow> (error + bug) \<times> bug_simulator" where
  "simulateOverflow now1 now2 sourceId overflowSize sim =
     (case map_of (allocations (analyzer sim)) sourceId of
        None \<Rightarrow> (Inl (Error ''Source allocation not found''), sim)
      | Some source \<Rightarrow>
          if a_status (objects (analyzer sim) source) \<noteq> Allocated
          then (Inl (Error ''Source allocation is not active''), sim)
          else
            (let bugId = nextBugId sim;
                 adjacent = findAdjacentAllocations sourceId (analyzer sim);
                 impact' =
                   (case adj_next adjacent of
                      None \<Rightarrow>
                        emptyImpact\<lparr>severity := Some Low,
                          impact_notes := Some ''No active allocation would be directly corrupted''\<rparr>
                    | Some nxt \<Rightarrow>
                        if a_status (objects (analyzer sim) nxt) = Allocated
                        then emptyImpact\<lparr>corruptedAllocation := Some nxt,
                               severity := Some (assessOverflowSeverity
                                  (objects (analyzer sim) source)
                                  (objects (analyzer sim) nxt) overflowSize)\<rparr>
                        else emptyImpact\<lparr>severity := Some Low,
                               impact_notes := Some ''No active allocation would be directly corrupted''\<rparr>);
                 bugDetails = \<lparr>b_id = bugId, b_type = BUFFER_OVERFLOW, b_sourceId = sourceId,
                               b_source = source, b_overflowSize = Some overflowSize,
                               b_wrongType = None, b_timestamp = now1, b_impact = impact'\<rparr>;
                 an' = snd (recordBug now2 sourceId BUFFER_OVERFLOW
                         (OverflowLog overflowSize
                            (map_option (\<lambda>n. a_id (objects (analyzer sim) n)) (adj_next adjacent)))
                         (analyzer sim))
             in (Inr bugDetails,
                 sim\<lparr>analyzer := an',
                     activeBugs := AList.update bugId bugDetails (activeBugs sim),
                     nextBugId := bugId + 1\<rparr>)))"

text \<open>
  \<^verbatim>\<open>simulateUseAfterFree(freedId)\<close>. \<^verbatim>\<open>freedAlloc.freedAt || 0\<close> is 0 when the
  property is absent (or 0). \<^verbatim>\<open>Array.prototype.sort\<close> is stable, as is \<open>sort_key\<close>.
\<close>

definition simulateUseAfterFree ::
  "int \<Rightarrow> int \<Rightarrow> int \<Rightarrow> bug_simulator \<Rightarrow> (error + bug) \<times> bug_simulator" where
  "simulateUseAfterFree now1 now2 freedId sim =
     (case map_of (allocations (analyzer sim)) freedId of
        None \<Rightarrow> (Inl (Error ''Allocation not found''), sim)
      | Some freedAlloc \<Rightarrow>
          if a_status (objects (analyzer sim) freedAlloc) \<noteq> Freed
          then (Inl (Error ''Allocation is not freed yet''), sim)
          else
            (let bugId = nextBugId sim;
                 bucketSize = findBucketForSize (a_size (objects (analyzer sim) freedAlloc));
                 allocationsInBucket = getAllocationsInBucket bucketSize (analyzer sim);
                 freedAt = (case a_freedAt (objects (analyzer sim) freedAlloc) of
                              None \<Rightarrow> 0 | Some t \<Rightarrow> if t = 0 then 0 else t);
                 potentialReusers =
                   filter (\<lambda>alloc. a_status (objects (analyzer sim) alloc) = Allocated
                                   \<and> a_timestamp (objects (analyzer sim) alloc) > freedAt)
                     allocationsInBucket;
                 impact' =
                   (if length potentialReusers > 0
                    then
                      (let mostLikelyReuser =
                             hd (sort_key (\<lambda>a. a_timestamp (objects (analyzer sim) a))
                                   potentialReusers)
                       in emptyImpact\<lparr>reusingAllocation := Some mostLikelyReuser,
                            severity := Some (assessUafSeverity
                               (objects (analyzer sim) freedAlloc)
                               (objects (analyzer sim) mostLikelyReuser))\<rparr>)
                    else emptyImpact\<lparr>severity := Some Medium,
                           impact_notes := Some
                             ''No reuse detected yet, but memory could be reused later''\<rparr>);
                 bugDetails = \<lparr>b_id = bugId, b_type = USE_AFTER_FREE, b_sourceId = freedId,
                               b_source = freedAlloc, b_overflowSize = None,
                               b_wrongType = None, b_timestamp = now1, b_impact = impact'\<rparr>;
                 an' = snd (recordBug now2 freedId USE_AFTER_FREE
                         (UafLog (map_option (\<lambda>n. a_id (objects (analyzer sim) n))
                                    (reusingAllocation impact')))
                         (analyzer sim))
             in (Inr bugDetails,
                 sim\<lparr>analyzer := an',
                     activeBugs := AList.update bugId bugDetails (activeBugs sim),
                     nextBugId := bugId + 1\<rparr>)))"

definition simulateTypeConfusion ::
  "int \<Rightarrow> int \<Rightarrow> int \<Rightarrow> string \<Rightarrow> bug_simulator \<Rightarrow> (error + bug) \<times> bug_simulator" where
  "simulateTypeConfusion now1 now2 sourceId wrongType sim =
     (case map_of (allocations (analyzer sim)) sourceId of
        None \<Rightarrow> (Inl (Error ''Source allocation not found''), sim)
      | Some source \<Rightarrow>
          if a_status (objects (analyzer sim) source) \<noteq> Allocated
          then (Inl (Error ''Source allocation is not active''), sim)
          else
            (let bugId = nextBugId sim;
                 correctType = a_type (objects (analyzer sim) source);
                 impact0 = emptyImpact\<lparr>originalType := Some correctType,
                             confusedType := Some wrongType\<rparr>;
                 wrongTypeExamples =
                   filter (\<lambda>alloc. a_type (objects (analyzer sim) alloc) = wrongType
                                   \<and> a_status (objects (analyzer sim) alloc) = Allocated)
                     (map snd (allocations (analyzer sim)));
                 impact' =
                   (case wrongTypeExamples of
                      wrongTypeExample # _ \<Rightarrow>
                        (let sizeDiff = a_size (objects (analyzer sim) source)
                                         - a_size (objects (analyzer sim) wrongTypeExample)
                         in (if sizeDiff > 0
                             then impact0\<lparr>severity := Some High,
                                    impact_notes := Some (correctType @ '' is larger than '' @ wrongType
                                       @ '', potential out-of-bounds access'')\<rparr>
                             else if sizeDiff < 0
                             then impact0\<lparr>severity := Some Medium,
                                    impact_notes := Some (correctType @ '' is smaller than '' @ wrongType
                                       @ '', potential metadata corruption'')\<rparr>
                             else impact0\<lparr>severity := Some Medium,
                                    impact_notes := Some ''Types have same size, but internal layout differences may cause issues''\<rparr>)
                            \<lparr>exampleAllocation := Some wrongTypeExample\<rparr>)
                    | [] \<Rightarrow>
                        impact0\<lparr>severity := Some Unknown,
                          impact_notes := Some (''No examples of '' @ wrongType
                             @ '' available for comparison'')\<rparr>);
                 bugDetails = \<lparr>b_id = bugId, b_type = TYPE_CONFUSION, b_sourceId = sourceId,
                               b_source = source, b_overflowSize = None,
                               b_wrongType = Some wrongType, b_timestamp = now1,
                               b_impact = impact'\<rparr>;
                 an' = snd (recordBug now2 sourceId TYPE_CONFUSION (ConfusionLog wrongType)
                         (analyzer sim))
             in (Inr bugDetails,
                 sim\<lparr>analyzer := an',
                     activeBugs := AList.update bugId bugDetails (activeBugs sim),
                     nextBugId := bugId + 1\<rparr>)))"

text \<open>
  \<^verbatim>\<open>assessExploitability(bugId)\<close>. The assessment is built up as in the source: each
  step appends a factor or a difficulty and changes the score. A comparison with an
  absent \<^verbatim>\<open>overflowSize\<close> is false; \<^verbatim>\<open>includes\<close> on an absent
  \<^verbatim>\<open>wrongType\<close> throws.
\<close>

record assessment =
  overall :: severity
  factors :: "string list"
  difficulties :: "string list"
  score :: int

definition addFactor :: "string \<Rightarrow> int \<Rightarrow> assessment \<Rightarrow> assessment" where
  "addFactor text' points a = a\<lparr>factors := factors a @ [text'], score := score a + points\<rparr>"

definition addDifficulty :: "string \<Rightarrow> int \<Rightarrow> assessment \<Rightarrow> assessment" where
  "addDifficulty text' points a =
     a\<lparr>difficulties := difficulties a @ [text'], score := score a - points\<rparr>"

definition overflowAtMost :: "int option \<Rightarrow> int \<Rightarrow> bool" where
  "overflowAtMost x n = (case x of None \<Rightarrow> False | Some v \<Rightarrow> v \<le> n)"

definition assessExploitability :: "int \<Rightarrow> bug_simulator \<Rightarrow> error + assessment" where
  "assessExploitability bugId sim =
     (case map_of (activeBugs sim) bugId of
        None \<Rightarrow> Inl (Error ''Bug not found'')
      | Some bug \<Rightarrow>
          (let start = \<lparr>overall = Low, factors = [], difficulties = [], score = 0\<rparr>;
               obj = objects (analyzer sim);
               assessed =
                 (case b_type bug of
                    BUFFER_OVERFLOW \<Rightarrow>
                      (case corruptedAllocation (b_impact bug) of
                         Some target \<Rightarrow>
                           (let a1 = (if stringIncludes (a_type (obj target)) ''Function''
                                         \<or> stringIncludes (a_type (obj target)) ''ArrayBuffer''
                                      then addFactor ''Overflow corrupts a critical object type''
                                             30 start
                                      else start)
                            in Inr (if overflowAtMost (b_overflowSize bug) 8
                                    then addFactor ''Small, controlled overflow size'' 20 a1
                                    else if overflowAtMost (b_overflowSize bug) 64
                                    then addFactor ''Moderate overflow size'' 10 a1
                                    else addDifficulty ''Large overflow may cause instability''
                                           10 a1))
                       | None \<Rightarrow>
                           Inr (addDifficulty ''No identified adjacent object to corrupt''
                                  20 start))
                  | USE_AFTER_FREE \<Rightarrow>
                      (case reusingAllocation (b_impact bug) of
                         Some reuser \<Rightarrow>
                           (let a1 = (if stringIncludes (a_type (obj reuser)) ''ArrayBuffer''
                                         \<or> stringIncludes (a_type (obj reuser)) ''Function''
                                      then addFactor ''UAF memory reused by a critical object type''
                                             30 start
                                      else start)
                            in Inr (if a_type (obj (b_source bug)) = a_type (obj reuser)
                                    then addFactor
                                      ''Reusing allocation has same type, reducing chance of crashes''
                                      15 a1
                                    else addDifficulty
                                      ''Type mismatch between freed and reusing objects may cause instability''
                                      10 a1))
                       | None \<Rightarrow>
                           Inr (addDifficulty ''No identified reusing allocation yet'' 15 start))
                  | TYPE_CONFUSION \<Rightarrow>
                      (case b_wrongType bug of
                         None \<Rightarrow> Inl TypeError
                       | Some wrongType \<Rightarrow>
                           (let a1 = (if stringIncludes wrongType ''Function''
                                         \<or> stringIncludes wrongType ''ArrayBuffer''
                                      then addFactor ''Confusion with a critical object type''
                                             25 start
                                      else start)
                            in case exampleAllocation (b_impact bug) of
                                 Some example \<Rightarrow>
                                   (let sizeDiff = a_size (obj (b_source bug))
                                                    - a_size (obj example)
                                    in Inr (if sizeDiff > 0
                                            then addFactor
                                              ''Target type is smaller than original, enabling out-of-bounds access''
                                              20 a1
                                            else a1))
                               | None \<Rightarrow>
                                   Inr (addDifficulty
                                     ''No example of confused type available for comparison''
                                     10 a1)))
                  | _ \<Rightarrow> Inr (addDifficulty ''Unknown bug type, difficult to assess'' 20 start))
           in case assessed of
                Inl e \<Rightarrow> Inl e
              | Inr a2 \<Rightarrow>
                  (let a3 = (if totalAllocations (stats (analyzer sim)) > 100
                             then addFactor
                               ''Complex heap state provides opportunities for grooming'' 10 a2
                             else a2)
                   in Inr (a3\<lparr>overall := (if score a3 \<ge> 40 then High
                                            else if score a3 \<ge> 20 then Medium
                                            else Low)\<rparr>))))"

definition getActiveBugs :: "bug_simulator \<Rightarrow> bug list" where
  "getActiveBugs sim = map snd (activeBugs sim)"

definition removeBug :: "int \<Rightarrow> bug_simulator \<Rightarrow> bug_simulator" where
  "removeBug bugId sim = sim\<lparr>activeBugs := AList.delete bugId (activeBugs sim)\<rparr>"

text \<open>The simulator's own \<^verbatim>\<open>reset\<close>.\<close>

definition resetSimulator :: "bug_simulator \<Rightarrow> bug_simulator" where
  "resetSimulator sim = sim\<lparr>activeBugs := [], nextBugId := 1\<rparr>"

text \<open>
  The states of a simulator and its tracker that the public operations of the two
  produce, starting from a simulator built on a fresh tracker.
\<close>

inductive simReachable :: "bug_simulator \<Rightarrow> bool" where
  simReachable_new: "simReachable (newBugSimulator newHeapAnalyzer)"
| simReachable_allocation:
    "simReachable sim \<Longrightarrow>
     simReachable (sim\<lparr>analyzer := snd (recordAllocation now size' type' metadata' (analyzer sim))\<rparr>)"
| simReachable_deallocation:
    "simReachable sim \<Longrightarrow>
     simReachable (sim\<lparr>analyzer := snd (recordDeallocation now id' (analyzer sim))\<rparr>)"
| simReachable_recordBug:
    "simReachable sim \<Longrightarrow>
     simReachable (sim\<lparr>analyzer := snd (recordBug now sourceId bugType details (analyzer sim))\<rparr>)"
| simReachable_reset:
    "simReachable sim \<Longrightarrow> simReachable (sim\<lparr>analyzer := reset (analyzer sim)\<rparr>)"
| simReachable_overflow:
    "simReachable sim \<Longrightarrow> simReachable (snd (simulateOverflow now1 now2 sourceId overflowSize sim))"
| simReachable_useAfterFree:
    "simReachable sim \<Longrightarrow> simReachable (snd (simulateUseAfterFree now1 now2 freedId sim))"
| simReachable_typeConfusion:
    "simReachable sim \<Longrightarrow>
     simReachable (snd (simulateTypeConfusion now1 now2 sourceId wrongType sim))"
| simReachable_removeBug:
    "simReachable sim \<Longrightarrow> simReachable (removeBug bugId sim)"
| simReachable_resetSimulator:
    "simReachable sim \<Longrightarrow> simReachable (resetSimulator sim)"

text \<open>
  What every bug record made by the three simulations has: its type is one of their three,
  an overflow bug carries its overflow size and a type-confusion bug its wrong type.
\<close>

definition bugWellFormed :: "bug \<Rightarrow> bool" where
  "bugWellFormed bug \<longleftrightarrow>
     (b_type bug = BUFFER_OVERFLOW \<and> b_overflowSize bug \<noteq> None)
     \<or> b_type bug = USE_AFTER_FREE
     \<or> (b_type bug = TYPE_CONFUSION \<and> b_wrongType bug \<noteq> None)"

section \<open>The strategy generator (class \<^verbatim>\<open>GroomingStrategyGenerator\<close>)\<close>

text \<open>
  The generator reads the shared tracker and the simulator, so its operations take the
  simulator state (which holds the tracker).

  The \<^verbatim>\<open>code\<close> of a phase is text produced by one of the generator's template
  methods; the model records which method is called and with which arguments.
\<close>

datatype technique =
    AllocationArrayCode string int int
  | AllocationWithDataCode "string option" int int
  | AllocationWithSpecificFieldsCode string int
  | TypeConfusionCode string "string option"
  | SizeMismatchExploitCode string "string option" int
  | MetadataCorruptionCode string "string option" int
  | FieldMisinterpretationCode string "string option"
  | OtherCode string   \<comment> \<open>the text of any other template method\<close>

record phase =
  p_type :: string
  p_description :: string
  p_code :: technique

record strategy =
  st_name :: string
  st_targetBug :: bug
  st_targetBucket :: "int option"
  st_description :: string
  st_phases :: "phase list"
  st_approach :: "string option"
  st_targetObjects :: "string list option"

text \<open>A template literal renders an absent value as \<^verbatim>\<open>undefined\<close>.\<close>

definition render :: "string option \<Rightarrow> string" where
  "render x = (case x of None \<Rightarrow> ''undefined'' | Some s \<Rightarrow> s)"

text \<open>The arrow in the strategy's name is U+2192, three bytes in UTF-8.\<close>

definition rightArrow :: string where
  "rightArrow = [CHR 0xE2, CHR 0x86, CHR 0x92]"

definition generateTypeConfusionStrategy :: "bug \<Rightarrow> bug_simulator \<Rightarrow> error + strategy" where
  "generateTypeConfusionStrategy bug sim =
     (case map_of (allocations (analyzer sim)) (b_sourceId bug) of
        None \<Rightarrow> Inl (Error ''Source allocation not found'')
      | Some src \<Rightarrow>
          (let source = objects (analyzer sim) src;
               wrong = render (b_wrongType bug);
               strategy0 =
                 \<lparr>st_name = ''Type Confusion Strategy ('' @ a_type source @ '' '' @ rightArrow
                              @ '' '' @ wrong @ '')'',
                  st_targetBug = bug,
                  st_targetBucket = None,
                  st_description = ''Strategy to exploit type confusion between ''
                              @ a_type source @ '' and '' @ wrong,
                  st_phases = [],
                  st_approach = None,
                  st_targetObjects = None\<rparr>;
               wrongTypeExamples =
                 filter (\<lambda>alloc. Some (a_type (objects (analyzer sim) alloc)) = b_wrongType bug)
                   (map snd (allocations (analyzer sim)));
               sizeDiff = (case wrongTypeExamples of
                             [] \<Rightarrow> 0
                           | example # _ \<Rightarrow>
                               a_size source - a_size (objects (analyzer sim) example))
           in Inr
             (if sizeDiff > 0
              then strategy0
                \<lparr>st_approach := Some ''size_mismatch_larger'',
                 st_phases :=
                   [\<lparr>p_type = ''preparation'',
                     p_description = ''Create many '' @ a_type source
                        @ '' objects for later confusion'',
                     p_code = AllocationArrayCode (a_type source) (a_size source) 10\<rparr>,
                    \<lparr>p_type = ''confusion_setup'',
                     p_description = ''Force type confusion between '' @ a_type source
                        @ '' and '' @ wrong,
                     p_code = TypeConfusionCode (a_type source) (b_wrongType bug)\<rparr>,
                    \<lparr>p_type = ''exploit'',
                     p_description = ''Access out-of-bounds memory through confused '' @ wrong
                        @ '' object'',
                     p_code = SizeMismatchExploitCode (a_type source) (b_wrongType bug)
                                sizeDiff\<rparr>]\<rparr>
              else if sizeDiff < 0
              then strategy0
                \<lparr>st_approach := Some ''size_mismatch_smaller'',
                 st_phases :=
                   [\<lparr>p_type = ''preparation'',
                     p_description = ''Arrange '' @ wrong
                        @ '' objects in memory with controlled data'',
                     p_code = AllocationWithDataCode (b_wrongType bug) \<bar>sizeDiff\<bar> 10\<rparr>,
                    \<lparr>p_type = ''confusion_setup'',
                     p_description = ''Force type confusion between '' @ a_type source
                        @ '' and '' @ wrong,
                     p_code = TypeConfusionCode (a_type source) (b_wrongType bug)\<rparr>,
                    \<lparr>p_type = ''exploit'',
                     p_description = ''Corrupt metadata by writing beyond '' @ a_type source
                        @ '' boundaries'',
                     p_code = MetadataCorruptionCode (a_type source) (b_wrongType bug)
                                \<bar>sizeDiff\<bar>\<rparr>]\<rparr>
              else strategy0
                \<lparr>st_approach := Some ''field_misinterpretation'',
                 st_phases :=
                   [\<lparr>p_type = ''preparation'',
                     p_description = ''Create '' @ a_type source
                        @ '' objects with specific field values'',
                     p_code = AllocationWithSpecificFieldsCode (a_type source) 10\<rparr>,
                    \<lparr>p_type = ''confusion_setup'',
                     p_description = ''Force type confusion between '' @ a_type source
                        @ '' and '' @ wrong,
                     p_code = TypeConfusionCode (a_type source) (b_wrongType bug)\<rparr>,
                    \<lparr>p_type = ''exploit'',
                     p_description = ''Exploit misinterpreted fields between types'',
                     p_code = FieldMisinterpretationCode (a_type source)
                                (b_wrongType bug)\<rparr>]\<rparr>)))"

text \<open>
  \<^verbatim>\<open>generateStrategyForBug(bugId)\<close> dispatches on the type of the bug. The builders
  for overflow bugs, for use-after-free bugs and for the other types are its first three
  arguments: what is proved below holds whatever they return.
\<close>

definition generateStrategyForBug ::
  "(bug \<Rightarrow> bug_simulator \<Rightarrow> error + strategy) \<Rightarrow>
   (bug \<Rightarrow> bug_simulator \<Rightarrow> error + strategy) \<Rightarrow>
   (bug \<Rightarrow> bug_simulator \<Rightarrow> error + strategy) \<Rightarrow>
   int \<Rightarrow> bug_simulator \<Rightarrow> error + strategy" where
  "generateStrategyForBug generateOverflowStrategy generateUafStrategy generateGenericStrategy
       bugId sim =
     (case map_of (activeBugs sim) bugId of
        None \<Rightarrow> Inl (Error ''Bug not found'')
      | Some bug \<Rightarrow>
          (case b_type bug of
             BUFFER_OVERFLOW \<Rightarrow> generateOverflowStrategy bug sim
           | USE_AFTER_FREE \<Rightarrow> generateUafStrategy bug sim
           | TYPE_CONFUSION \<Rightarrow> generateTypeConfusionStrategy bug sim
           | _ \<Rightarrow> generateGenericStrategy bug sim))"

section \<open>The specification's reading of two heuristics\<close>

text \<open>
  The specification's wording of the exploitability score of an overflow bug, where
  ``critical'' is its critical set (a type that contains one of \<open>Function\<close>,
  \<open>ArrayBuffer\<close>, \<open>WebAssembly\<close>, \<open>VTable\<close>): from 0, plus 30 for a critical
  target, plus 20 for an overflow of at most 8 bytes, plus 10 for one of at most 64,
  minus 10 for a larger one, minus 20 without a target, plus 10 when more than 100
  allocations were recorded. The argument \<open>targetType\<close> is the type of the corrupted
  target, if there is one.
\<close>

definition claimedOverflowScore :: "string option \<Rightarrow> int \<Rightarrow> int \<Rightarrow> int" where
  "claimedOverflowScore targetType overflowSize recorded =
     (case targetType of
        None \<Rightarrow> - 20
      | Some t \<Rightarrow>
          (if \<exists>c\<in>set criticalTypes. sublist c t then 30 else 0)
          + (if overflowSize \<le> 8 then 20 else if overflowSize \<le> 64 then 10 else - 10))
     + (if recorded > 100 then 10 else 0)"

text \<open>
  The specification's wording of the size difference of a type-confusion strategy: the
  size of the source minus the size of a currently allocated example of the wrong type,
  0 when there is no such example; and the approach it selects.
\<close>

definition claimedSizeDiff :: "ref \<Rightarrow> string option \<Rightarrow> bug_simulator \<Rightarrow> int" where
  "claimedSizeDiff source wrongType sim =
     (case filter (\<lambda>r. Some (a_type (objects (analyzer sim) r)) = wrongType
                      \<and> a_status (objects (analyzer sim) r) = Allocated)
             (map snd (allocations (analyzer sim))) of
        [] \<Rightarrow> 0
      | example # _ \<Rightarrow>
          a_size (objects (analyzer sim) source) - a_size (objects (analyzer sim) example))"

definition claimedApproach :: "int \<Rightarrow> string" where
  "claimedApproach sizeDiff =
     (if sizeDiff > 0 then ''size_mismatch_larger''
      else if sizeDiff < 0 then ''size_mismatch_smaller''
      else ''field_misinterpretation'')"

section \<open>Example states\<close>

text \<open>
  Five allocations of type \<open>ArrayBuffer\<close> and size 64 on a fresh tracker, at clock
  readings 1 to 5 (they get ids 1 to 5 and share bucket 64), and then the third one
  freed at time 6.
\<close>

definition fiveBuffers :: heap_analyzer where
  "fiveBuffers =
     foldl (\<lambda>s now. snd (recordAllocation now 64 ''ArrayBuffer'' [] s)) newHeapAnalyzer
       [1, 2, 3, 4, 5]"

definition fiveBuffersThirdFreed :: heap_analyzer where
  "fiveBuffersThirdFreed = snd (recordDeallocation 6 3 fiveBuffers)"

text \<open>
  The same, followed by two more allocations in bucket 64: a \<open>Function\<close> of size 60
  at time 9 and an \<open>Object\<close> of size 64 at time 8 (ids 6 and 7).
\<close>

definition fiveBuffersThenReuse :: heap_analyzer where
  "fiveBuffersThenReuse =
     snd (recordAllocation 8 64 ''Object'' []
       (snd (recordAllocation 9 60 ''Function'' [] fiveBuffersThirdFreed)))"

text \<open>
  An overflow of 4 bytes from a \<open>Foo\<close> into its neighbour of type \<open>VTable\<close>, both of
  size 64.
\<close>

definition vtableOverflow :: bug_simulator where
  "vtableOverflow =
     snd (simulateOverflow 3 4 1 4
       (newBugSimulator
          (snd (recordAllocation 2 64 ''VTable'' []
             (snd (recordAllocation 1 64 ''Foo'' [] newHeapAnalyzer))))))"

text \<open>
  A \<open>Foo\<close> of size 64 and a \<open>Bar\<close> of size 128; the \<open>Bar\<close> is freed, and then the
  \<open>Foo\<close> is confused with a \<open>Bar\<close>.
\<close>

definition confusedAfterFree :: bug_simulator where
  "confusedAfterFree =
     snd (simulateTypeConfusion 4 5 1 ''Bar''
       (newBugSimulator
          (snd (recordDeallocation 3 2
             (snd (recordAllocation 2 128 ''Bar'' []
                (snd (recordAllocation 1 64 ''Foo'' [] newHeapAnalyzer))))))))"

text \<open>The use after free of the third buffer, when two later allocations share its bucket.\<close>

definition reusedAfterFree :: bug_simulator where
  "reusedAfterFree = snd (simulateUseAfterFree 10 11 3 (newBugSimulator fiveBuffersThenReuse))"

section \<open>Properties of the bucket classifier\<close>

lemma ceiling_div_128: "\<lceil>real_of_int s / 128\<rceil> = - ((- s) div 128)"
proof -
  have "\<lceil>real_of_int s / real_of_int 128\<rceil> = - ((- s) div 128)"
    by (rule ceiling_divide_eq_div)
  then show ?thesis by (simp only: of_int_numeral)
qed

lemma ceiling_div_4096: "\<lceil>real_of_int s / 4096\<rceil> = - ((- s) div 4096)"
proof -
  have "\<lceil>real_of_int s / real_of_int 4096\<rceil> = - ((- s) div 4096)"
    by (rule ceiling_divide_eq_div)
  then show ?thesis by (simp only: of_int_numeral)
qed

lemma round_up_props:
  fixes s n :: int
  assumes "0 < n"
  shows "n dvd - ((- s) div n) * n"
    and "s \<le> - ((- s) div n) * n"
    and "- ((- s) div n) * n < s + n"
proof -
  have e: "(- s) div n * n + (- s) mod n = - s" by (rule div_mult_mod_eq)
  have l: "0 \<le> (- s) mod n" using assms by (rule pos_mod_sign)
  have u: "(- s) mod n < n" using assms by (rule pos_mod_bound)
  show "n dvd - ((- s) div n) * n" by (rule dvd_triv_right)
  from e l show "s \<le> - ((- s) div n) * n" by linarith
  from e u show "- ((- s) div n) * n < s + n" by linarith
qed

lemma find_sorted_least:
  fixes s :: int
  shows "sorted xs \<Longrightarrow> find (\<lambda>b. s \<le> b) xs = Some y \<Longrightarrow>
         y \<in> set xs \<and> s \<le> y \<and> (\<forall>b\<in>set xs. s \<le> b \<longrightarrow> y \<le> b)"
  by (induction xs) (auto split: if_splits)

lemma find_le_last:
  fixes s :: int
  shows "xs \<noteq> [] \<Longrightarrow> s \<le> last xs \<Longrightarrow> \<exists>y. find (\<lambda>b. s \<le> b) xs = Some y"
  by (induction xs) (auto split: if_splits)

lemma bucketSizes_sorted: "sorted bucketSizes"
  by (simp add: bucketSizes_def)

lemma bucketSizes_last: "bucketSizes \<noteq> [] \<and> last bucketSizes = 1024"
  by (simp add: bucketSizes_def)

lemma findBucketForSize_nonpos: "s \<le> 0 \<Longrightarrow> findBucketForSize s = 0"
  by (simp add: findBucketForSize_def)

lemma findBucketForSize_small:
  assumes "0 < s" and "s \<le> 1024"
  shows "findBucketForSize s \<in> set bucketSizes"
    and "s \<le> findBucketForSize s"
    and "\<forall>b\<in>set bucketSizes. s \<le> b \<longrightarrow> findBucketForSize s \<le> b"
proof -
  from assms bucketSizes_last obtain y where y: "find (\<lambda>b. s \<le> b) bucketSizes = Some y"
    using find_le_last [of bucketSizes s] by auto
  from assms y have f: "findBucketForSize s = y"
    by (simp add: findBucketForSize_def)
  from find_sorted_least [OF bucketSizes_sorted y] f
  show "findBucketForSize s \<in> set bucketSizes"
    and "s \<le> findBucketForSize s"
    and "\<forall>b\<in>set bucketSizes. s \<le> b \<longrightarrow> findBucketForSize s \<le> b"
    by simp_all
qed

lemma findBucketForSize_medium:
  assumes "1024 < s" and "s \<le> 4096"
  shows "findBucketForSize s = - ((- s) div 128) * 128"
  using assms by (simp add: findBucketForSize_def ceiling_div_128)

lemma findBucketForSize_large:
  assumes "4096 < s"
  shows "findBucketForSize s = - ((- s) div 4096) * 4096"
  using assms by (simp add: findBucketForSize_def ceiling_div_4096)

lemma findBucketForSize_examples:
  "findBucketForSize 1 = 8" "findBucketForSize 8 = 8" "findBucketForSize 9 = 16"
  "findBucketForSize 1024 = 1024" "findBucketForSize 1025 = 1152"
  "findBucketForSize 4096 = 4096" "findBucketForSize 4097 = 8192"
  "findBucketForSize 0 = 0" "findBucketForSize (- 5) = 0"
  by (simp_all add: findBucketForSize_def bucketSizes_def ceiling_div_128 ceiling_div_4096)

text \<open>
  Claim C1. \<open>findBucketForSize\<close> is a total function on the integers. It returns 0 for a
  size that is not positive; for a size from 1 to 1024 the smallest entry of the fixed
  ascending table that is at least the size; for a size above 1024 and up to 4096 the
  size rounded up to the next multiple of 128 (the only multiple \<open>r\<close> of 128 with
  \<open>size \<le> r < size + 128\<close>); for a larger size the size rounded up to the next multiple
  of 4096. The listed examples hold.
\<close>

theorem findBucketForSize_spec:
  "bucketSizes = [8, 16, 32, 48, 64, 80, 96, 112, 128, 144, 160, 192, 224, 256, 320, 384,
                  448, 512, 576, 640, 704, 768, 832, 896, 960, 1024]
   \<and> sorted_wrt (<) bucketSizes
   \<and> (size' \<le> 0 \<longrightarrow> findBucketForSize size' = 0)
   \<and> (0 < size' \<and> size' \<le> 1024 \<longrightarrow>
        findBucketForSize size' \<in> set bucketSizes
        \<and> size' \<le> findBucketForSize size'
        \<and> (\<forall>b\<in>set bucketSizes. size' \<le> b \<longrightarrow> findBucketForSize size' \<le> b))
   \<and> (1024 < size' \<and> size' \<le> 4096 \<longrightarrow>
        128 dvd findBucketForSize size'
        \<and> size' \<le> findBucketForSize size'
        \<and> findBucketForSize size' < size' + 128)
   \<and> (4096 < size' \<longrightarrow>
        4096 dvd findBucketForSize size'
        \<and> size' \<le> findBucketForSize size'
        \<and> findBucketForSize size' < size' + 4096)
   \<and> findBucketForSize 1 = 8 \<and> findBucketForSize 8 = 8 \<and> findBucketForSize 9 = 16
   \<and> findBucketForSize 1024 = 1024 \<and> findBucketForSize 1025 = 1152
   \<and> findBucketForSize 4096 = 4096 \<and> findBucketForSize 4097 = 8192
   \<and> findBucketForSize 0 = 0 \<and> findBucketForSize (- 5) = 0"
proof -
  have table: "bucketSizes = [8, 16, 32, 48, 64, 80, 96, 112, 128, 144, 160, 192, 224, 256,
      320, 384, 448, 512, 576, 640, 704, 768, 832, 896, 960, 1024]"
    by (simp add: bucketSizes_def)
  have asc: "sorted_wrt (<) bucketSizes"
    by (simp add: bucketSizes_def)
  have medium: "1024 < size' \<and> size' \<le> 4096 \<longrightarrow>
        128 dvd findBucketForSize size' \<and> size' \<le> findBucketForSize size'
        \<and> findBucketForSize size' < size' + 128"
    using findBucketForSize_medium [of size'] round_up_props [of 128 size']
    by simp
  have large: "4096 < size' \<longrightarrow>
        4096 dvd findBucketForSize size' \<and> size' \<le> findBucketForSize size'
        \<and> findBucketForSize size' < size' + 4096"
    using findBucketForSize_large [of size'] round_up_props [of 4096 size']
    by simp
  have small: "0 < size' \<and> size' \<le> 1024 \<longrightarrow>
        findBucketForSize size' \<in> set bucketSizes
        \<and> size' \<le> findBucketForSize size'
        \<and> (\<forall>b\<in>set bucketSizes. size' \<le> b \<longrightarrow> findBucketForSize size' \<le> b)"
    using findBucketForSize_small [of size'] by blast
  have nonpos: "size' \<le> 0 \<longrightarrow> findBucketForSize size' = 0"
    by (simp add: findBucketForSize_nonpos)
  show ?thesis
    apply (intro conjI)
    apply (rule table)
    apply (rule asc)
    apply (rule nonpos)
    apply (rule small)
    apply (rule medium)
    apply (rule large)
    apply (rule findBucketForSize_examples)+
    done
qed

theorem findBucketForSize_spec_witness:
  "findBucketForSize 100 \<in> set bucketSizes \<and> 100 \<le> findBucketForSize 100
   \<and> findBucketForSize 100 \<le> 112
   \<and> 128 dvd findBucketForSize 2000 \<and> 2000 \<le> findBucketForSize 2000
   \<and> findBucketForSize 2000 < 2128
   \<and> 4096 dvd findBucketForSize 5000 \<and> 5000 \<le> findBucketForSize 5000
   \<and> findBucketForSize 5000 < 9096
   \<and> findBucketForSize (- 3) = 0"
proof -
  have m: "(112::int) \<in> set bucketSizes" by (simp add: bucketSizes_def)
  from findBucketForSize_spec [of 100] m
  have a: "findBucketForSize 100 \<in> set bucketSizes \<and> 100 \<le> findBucketForSize 100
           \<and> findBucketForSize 100 \<le> 112"
    by simp
  from findBucketForSize_spec [of 2000]
  have b: "128 dvd findBucketForSize 2000 \<and> 2000 \<le> findBucketForSize 2000
           \<and> findBucketForSize 2000 < 2128"
    by simp
  from findBucketForSize_spec [of 5000]
  have c: "4096 dvd findBucketForSize 5000 \<and> 5000 \<le> findBucketForSize 5000
           \<and> findBucketForSize 5000 < 9096"
    by simp
  from findBucketForSize_spec [of "- 3"]
  have d: "findBucketForSize (- 3) = 0"
    by simp
  from a b c d show ?thesis by (intro conjI) (erule conjE conjunct1 conjunct2 | assumption)+
qed

section \<open>Properties of the tracker\<close>

lemma recordAllocation_new:
  "recordAllocation now size' type' md newHeapAnalyzer =
     (1, \<lparr>objects = (\<lambda>_. blankAllocation)
              (0 := \<lparr>a_id = 1, a_size = size', a_type = type', a_timestamp = now,
                     a_metadata = md, a_status = Allocated, a_freedAt = None\<rparr>),
          nextRef = Suc 0,
          allocations = [(1, 0)],
          buckets = [(findBucketForSize size', [0])],
          timeline = [AllocationEvent now 0],
          nextId = 2,
          detectedBucketSizes = [],
          stats = \<lparr>totalAllocations = 1, totalDeallocations = 0,
                    maxLiveAllocations = 1, currentLiveAllocations = 1\<rparr>\<rparr>)"
  by (simp add: recordAllocation_def newHeapAnalyzer_def emptyStats_def Let_def)

lemma recordDeallocation_known:
  "map_of (allocations s) id' = Some r \<Longrightarrow>
   recordDeallocation now id' s =
     (None,
      s\<lparr>objects := (objects s)(r := (objects s r)\<lparr>a_status := Freed, a_freedAt := Some now\<rparr>),
        timeline := timeline s @ [DeallocationEvent now r],
        stats := (stats s)\<lparr>totalDeallocations := totalDeallocations (stats s) + 1,
                   currentLiveAllocations := currentLiveAllocations (stats s) - 1\<rparr>\<rparr>)"
  by (simp add: recordDeallocation_def)

lemma tracker_inv_new: "tracker_inv newHeapAnalyzer"
  by (simp add: tracker_inv_def newHeapAnalyzer_def)

lemma tracker_inv_reset: "tracker_inv (reset s)"
  by (simp add: tracker_inv_def reset_def)

lemma tracker_inv_recordBug:
  "tracker_inv s \<Longrightarrow> tracker_inv (snd (recordBug now sourceId bugType details s))"
  by (simp add: tracker_inv_def recordBug_def getAllocationsInBucket_def split: option.split)

lemma tracker_inv_recordDeallocation:
  assumes "tracker_inv s"
  shows "tracker_inv (snd (recordDeallocation now id' s))"
proof (cases "map_of (allocations s) id'")
  case None
  with assms show ?thesis by (simp add: recordDeallocation_def)
next
  case (Some a)
  have obj: "\<And>r. a_id (objects (snd (recordDeallocation now id' s)) r) = a_id (objects s r)
        \<and> a_size (objects (snd (recordDeallocation now id' s)) r) = a_size (objects s r)"
    using Some by (simp add: recordDeallocation_def)
  have rest: "allocations (snd (recordDeallocation now id' s)) = allocations s"
     "buckets (snd (recordDeallocation now id' s)) = buckets s"
     "nextId (snd (recordDeallocation now id' s)) = nextId s"
     "nextRef (snd (recordDeallocation now id' s)) = nextRef s"
    using Some by (simp_all add: recordDeallocation_def)
  from assms show ?thesis
    unfolding tracker_inv_def getAllocationsInBucket_def by (simp only: obj rest) 
qed


lemma in_bucket_iff:
  "r \<in> set (getAllocationsInBucket b s) \<longleftrightarrow>
     (\<exists>rs. map_of (buckets s) b = Some rs \<and> r \<in> set rs)"
  by (cases "map_of (buckets s) b") (simp_all add: getAllocationsInBucket_def)

lemma recordAllocation_effect:
  fixes s now size' type' md
  defines "s' \<equiv> snd (recordAllocation now size' type' md s)"
  shows "fst (recordAllocation now size' type' md s) = nextId s"
    and "objects s' = (objects s)(nextRef s :=
           \<lparr>a_id = nextId s, a_size = size', a_type = type', a_timestamp = now,
            a_metadata = md, a_status = Allocated, a_freedAt = None\<rparr>)"
    and "nextRef s' = Suc (nextRef s)"
    and "nextId s' = nextId s + 1"
    and "map_of (allocations s') = (map_of (allocations s))(nextId s \<mapsto> nextRef s)"
    and "map_of (buckets s') = (map_of (buckets s))(findBucketForSize size' \<mapsto>
           getAllocationsInBucket (findBucketForSize size') s @ [nextRef s])"
    and "timeline s' = timeline s @ [AllocationEvent now (nextRef s)]"
  unfolding s'_def
  by (auto simp add: recordAllocation_def Let_def update_conv getAllocationsInBucket_def
      split: option.split)

lemma tracker_inv_recordAllocation:
  assumes inv: "tracker_inv s"
  shows "tracker_inv (snd (recordAllocation now size' type' md s))"
proof -
  let ?s' = "snd (recordAllocation now size' type' md s)"
  let ?b = "findBucketForSize size'"
  note eff = recordAllocation_effect [of now size' type' md s]
  from inv have a: "\<And>i r. map_of (allocations s) i = Some r \<Longrightarrow>
        a_id (objects s r) = i \<and> i < nextId s \<and> r < nextRef s
        \<and> r \<in> set (getAllocationsInBucket (findBucketForSize (a_size (objects s r))) s)"
    and b: "\<And>b rs. map_of (buckets s) b = Some rs \<Longrightarrow>
          distinct rs \<and> (\<forall>r\<in>set rs. map_of (allocations s) (a_id (objects s r)) = Some r)"
    unfolding tracker_inv_def by blast+
  have old_lt: "\<And>r. r \<in> set (getAllocationsInBucket ?b s) \<Longrightarrow> r < nextRef s"
  proof -
    fix r assume r: "r \<in> set (getAllocationsInBucket ?b s)"
    then obtain rs where rs: "map_of (buckets s) ?b = Some rs" and "r \<in> set rs"
      unfolding in_bucket_iff by blast
    with b [OF rs] have "map_of (allocations s) (a_id (objects s r)) = Some r" by blast
    from a [OF this] show "r < nextRef s" by blast
  qed
  have old_distinct: "distinct (getAllocationsInBucket ?b s)"
    using b by (cases "map_of (buckets s) ?b") (simp_all add: getAllocationsInBucket_def)
  have bucket': "\<And>b'. getAllocationsInBucket b' ?s' =
         (if b' = ?b then getAllocationsInBucket ?b s @ [nextRef s]
          else getAllocationsInBucket b' s)"
    by (simp add: getAllocationsInBucket_def eff)
  have part1: "a_id (objects ?s' r) = i \<and> i < nextId ?s' \<and> r < nextRef ?s'
        \<and> r \<in> set (getAllocationsInBucket (findBucketForSize (a_size (objects ?s' r))) ?s')"
    if m: "map_of (allocations ?s') i = Some r" for i r
  proof -
    show "a_id (objects ?s' r) = i \<and> i < nextId ?s' \<and> r < nextRef ?s'
        \<and> r \<in> set (getAllocationsInBucket (findBucketForSize (a_size (objects ?s' r))) ?s')"
    proof (cases "i = nextId s")
      case True
      with m have "r = nextRef s" by (simp add: eff)
      with True show ?thesis by (simp add: eff bucket')
    next
      case False
      with m have m0: "map_of (allocations s) i = Some r" by (simp add: eff)
      from a [OF m0] show ?thesis by (auto simp add: eff bucket')
    qed
  qed
  have part2: "distinct rs" if m: "map_of (buckets ?s') b' = Some rs" for b' rs
  proof (cases "b' = ?b")
      case True
      with m have "rs = getAllocationsInBucket ?b s @ [nextRef s]" by (simp add: eff)
      with old_distinct old_lt show ?thesis by auto
    next
      case False
      with m have "map_of (buckets s) b' = Some rs" by (simp add: eff)
      from b [OF this] show ?thesis by blast
  qed
  have part3: "map_of (allocations ?s') (a_id (objects ?s' r)) = Some r"
    if m: "map_of (buckets ?s') b' = Some rs" and r: "r \<in> set rs" for b' rs r
  proof -
    have old: "r < nextRef s \<Longrightarrow> map_of (allocations s) (a_id (objects s r)) = Some r \<Longrightarrow>
        map_of (allocations ?s') (a_id (objects ?s' r)) = Some r"
    proof -
      assume lt: "r < nextRef s" and mm: "map_of (allocations s) (a_id (objects s r)) = Some r"
      from a [OF mm] have "a_id (objects s r) < nextId s" by blast
      with lt mm show ?thesis by (simp add: eff)
    qed
    show "map_of (allocations ?s') (a_id (objects ?s' r)) = Some r"
    proof (cases "r = nextRef s")
      case True
      then show ?thesis by (simp add: eff)
    next
      case False
      have "\<exists>b0 rs0. map_of (buckets s) b0 = Some rs0 \<and> r \<in> set rs0"
      proof (cases "b' = ?b")
        case True
        with m have "rs = getAllocationsInBucket ?b s @ [nextRef s]" by (simp add: eff)
        with r False have "r \<in> set (getAllocationsInBucket ?b s)" by simp
        then show ?thesis unfolding in_bucket_iff by blast
      next
        case False
        with m have "map_of (buckets s) b' = Some rs" by (simp add: eff)
        with r show ?thesis by blast
      qed
      then obtain b0 rs0 where m0: "map_of (buckets s) b0 = Some rs0" and r0: "r \<in> set rs0"
        by blast
      from b [OF m0] r0 have mm: "map_of (allocations s) (a_id (objects s r)) = Some r" by blast
      from a [OF mm] have "r < nextRef s" by blast
      from old [OF this mm] show ?thesis .
    qed
  qed
  from part1 part2 part3 show ?thesis
    unfolding tracker_inv_def by blast
qed

lemma reachable_tracker_inv: "reachable s \<Longrightarrow> tracker_inv s"
  by (induction rule: reachable.induct)
     (simp_all add: tracker_inv_new tracker_inv_recordAllocation tracker_inv_recordDeallocation
        tracker_inv_recordBug tracker_inv_reset)

lemma recordDeallocation_unknown:
  "map_of (allocations s) id' = None \<Longrightarrow>
   recordDeallocation now id' s = (Some (DeallocateUnknownId id'), s)"
  by (simp add: recordDeallocation_def)

text \<open>
  Claim C5. When the id is not in the allocation table, \<open>recordDeallocation\<close> reports
  the unknown id and returns the tracker exactly as it was. When the id is in the table,
  with object \<open>r\<close>, the call marks \<open>r\<close> as freed, sets its freed timestamp to the clock
  reading, leaves every other object alone, appends a deallocation event to the timeline,
  adds one to the total of deallocations and takes one from the live count; the table,
  the buckets and the other counters are unchanged. Nothing in this depends on the status
  of \<open>r\<close> before the call, and a second call on the same id sets the freed timestamp
  again and counts a second deallocation.
\<close>

theorem recordDeallocation_spec:
  "(map_of (allocations s) id' = None \<longrightarrow>
      recordDeallocation now id' s = (Some (DeallocateUnknownId id'), s))
   \<and> (\<forall>r. map_of (allocations s) id' = Some r \<longrightarrow>
        fst (recordDeallocation now id' s) = None
        \<and> objects (snd (recordDeallocation now id' s)) r
            = (objects s r)\<lparr>a_status := Freed, a_freedAt := Some now\<rparr>
        \<and> a_status (objects (snd (recordDeallocation now id' s)) r) = Freed
        \<and> a_freedAt (objects (snd (recordDeallocation now id' s)) r) = Some now
        \<and> (\<forall>r'. r' \<noteq> r \<longrightarrow> objects (snd (recordDeallocation now id' s)) r' = objects s r')
        \<and> timeline (snd (recordDeallocation now id' s)) = timeline s @ [DeallocationEvent now r]
        \<and> totalDeallocations (stats (snd (recordDeallocation now id' s)))
            = totalDeallocations (stats s) + 1
        \<and> currentLiveAllocations (stats (snd (recordDeallocation now id' s)))
            = currentLiveAllocations (stats s) - 1
        \<and> totalAllocations (stats (snd (recordDeallocation now id' s))) = totalAllocations (stats s)
        \<and> maxLiveAllocations (stats (snd (recordDeallocation now id' s)))
            = maxLiveAllocations (stats s)
        \<and> allocations (snd (recordDeallocation now id' s)) = allocations s
        \<and> buckets (snd (recordDeallocation now id' s)) = buckets s
        \<and> nextId (snd (recordDeallocation now id' s)) = nextId s
        \<and> a_freedAt (objects (snd (recordDeallocation now2 id'
              (snd (recordDeallocation now id' s)))) r) = Some now2
        \<and> a_status (objects (snd (recordDeallocation now2 id'
              (snd (recordDeallocation now id' s)))) r) = Freed
        \<and> totalDeallocations (stats (snd (recordDeallocation now2 id'
              (snd (recordDeallocation now id' s))))) = totalDeallocations (stats s) + 2)"
proof (intro conjI impI allI)
  assume "map_of (allocations s) id' = None"
  then show "recordDeallocation now id' s = (Some (DeallocateUnknownId id'), s)"
    by (rule recordDeallocation_unknown)
next
  fix r
  assume k: "map_of (allocations s) id' = Some r"
  let ?s1 = "snd (recordDeallocation now id' s)"
  note e1 = recordDeallocation_known [OF k, of now]
  have k1: "map_of (allocations ?s1) id' = Some r"
    using k by (simp add: e1)
  note e2 = recordDeallocation_known [OF k1, of now2]
  show "fst (recordDeallocation now id' s) = None" by (simp add: e1)
  show "objects ?s1 r = (objects s r)\<lparr>a_status := Freed, a_freedAt := Some now\<rparr>"
    by (simp add: e1)
  show "a_status (objects ?s1 r) = Freed" by (simp add: e1)
  show "a_freedAt (objects ?s1 r) = Some now" by (simp add: e1)
  show "timeline ?s1 = timeline s @ [DeallocationEvent now r]" by (simp add: e1)
  show "totalDeallocations (stats ?s1) = totalDeallocations (stats s) + 1" by (simp add: e1)
  show "currentLiveAllocations (stats ?s1) = currentLiveAllocations (stats s) - 1"
    by (simp add: e1)
  show "totalAllocations (stats ?s1) = totalAllocations (stats s)" by (simp add: e1)
  show "maxLiveAllocations (stats ?s1) = maxLiveAllocations (stats s)" by (simp add: e1)
  show "allocations ?s1 = allocations s" by (simp add: e1)
  show "buckets ?s1 = buckets s" by (simp add: e1)
  show "nextId ?s1 = nextId s" by (simp add: e1)
  show "a_freedAt (objects (snd (recordDeallocation now2 id' ?s1)) r) = Some now2"
    by (simp add: e2)
  show "a_status (objects (snd (recordDeallocation now2 id' ?s1)) r) = Freed"
    by (simp add: e2)
  show "totalDeallocations (stats (snd (recordDeallocation now2 id' ?s1)))
          = totalDeallocations (stats s) + 2"
    by (simp add: e2) (simp add: e1)
next
  fix r r'
  assume k: "map_of (allocations s) id' = Some r" and "r' \<noteq> r"
  then show "objects (snd (recordDeallocation now id' s)) r' = objects s r'"
    by (simp add: recordDeallocation_known [OF k])
qed

theorem recordDeallocation_spec_witness:
  "map_of (allocations (snd (recordAllocation 1 64 ''Foo'' [] newHeapAnalyzer))) 7 = None
   \<and> recordDeallocation 5 7 (snd (recordAllocation 1 64 ''Foo'' [] newHeapAnalyzer))
       = (Some (DeallocateUnknownId 7), snd (recordAllocation 1 64 ''Foo'' [] newHeapAnalyzer))
   \<and> map_of (allocations (snd (recordAllocation 1 64 ''Foo'' [] newHeapAnalyzer))) 1 = Some 0
   \<and> a_status (objects (snd (recordDeallocation 5 1
         (snd (recordAllocation 1 64 ''Foo'' [] newHeapAnalyzer)))) 0) = Freed
   \<and> a_freedAt (objects (snd (recordDeallocation 5 1
         (snd (recordAllocation 1 64 ''Foo'' [] newHeapAnalyzer)))) 0) = Some 5
   \<and> totalDeallocations (stats (snd (recordDeallocation 5 1
         (snd (recordAllocation 1 64 ''Foo'' [] newHeapAnalyzer))))) = 1
   \<and> currentLiveAllocations (stats (snd (recordDeallocation 5 1
         (snd (recordAllocation 1 64 ''Foo'' [] newHeapAnalyzer))))) = 0
   \<and> a_freedAt (objects (snd (recordDeallocation 6 1 (snd (recordDeallocation 5 1
         (snd (recordAllocation 1 64 ''Foo'' [] newHeapAnalyzer)))))) 0) = Some 6
   \<and> totalDeallocations (stats (snd (recordDeallocation 6 1 (snd (recordDeallocation 5 1
         (snd (recordAllocation 1 64 ''Foo'' [] newHeapAnalyzer))))))) = 2"
proof -
  let ?S = "snd (recordAllocation 1 64 ''Foo'' [] newHeapAnalyzer)"
  have u: "map_of (allocations ?S) 7 = None"
    by (simp add: recordAllocation_new)
  have k: "map_of (allocations ?S) 1 = Some 0"
    by (simp add: recordAllocation_new)
  have t: "totalDeallocations (stats ?S) = 0" "currentLiveAllocations (stats ?S) = 1"
    by (simp_all add: recordAllocation_new)
  from recordDeallocation_spec [of ?S 7 5] u
  have a: "recordDeallocation 5 7 ?S = (Some (DeallocateUnknownId 7), ?S)"
    by blast
  from recordDeallocation_spec [of ?S 1 5 6] k
  have b: "a_status (objects (snd (recordDeallocation 5 1 ?S)) 0) = Freed
     \<and> a_freedAt (objects (snd (recordDeallocation 5 1 ?S)) 0) = Some 5
     \<and> totalDeallocations (stats (snd (recordDeallocation 5 1 ?S)))
         = totalDeallocations (stats ?S) + 1
     \<and> currentLiveAllocations (stats (snd (recordDeallocation 5 1 ?S)))
         = currentLiveAllocations (stats ?S) - 1
     \<and> a_freedAt (objects (snd (recordDeallocation 6 1 (snd (recordDeallocation 5 1 ?S)))) 0)
         = Some 6
     \<and> totalDeallocations (stats (snd (recordDeallocation 6 1 (snd (recordDeallocation 5 1 ?S)))))
         = totalDeallocations (stats ?S) + 2"
    by blast
  from u k a b t show ?thesis by simp
qed

lemma findIndex_Some:
  "findIndex P xs = Some i \<Longrightarrow> i < length xs \<and> P (xs ! i) \<and> (\<forall>j<i. \<not> P (xs ! j))"
proof (induction xs arbitrary: i)
  case Nil
  then show ?case by simp
next
  case (Cons x xs)
  show ?case
  proof (cases "P x")
    case True
    with Cons.prems show ?thesis by simp
  next
    case False
    with Cons.prems obtain k where k: "findIndex P xs = Some k" and i: "i = Suc k"
      by auto
    from Cons.IH [OF k] False i show ?thesis
      by (auto simp: nth_Cons split: nat.splits)
  qed
qed

lemma findIndex_None: "findIndex P xs = None \<longleftrightarrow> (\<forall>x\<in>set xs. \<not> P x)"
  by (induction xs) auto

lemma findAdjacentAllocations_found:
  assumes "map_of (allocations s) id' = Some r"
    and "getAllocationsInBucket (findBucketForSize (a_size (objects s r))) s = bucketed"
    and "findIndex (\<lambda>a. a_id (objects s a) = id') bucketed = Some i"
  shows "findAdjacentAllocations id' s =
           \<lparr>adj_prev = (if 0 < i then Some (bucketed ! (i - 1)) else None),
            adj_next = (if i + 1 < length bucketed then Some (bucketed ! (i + 1)) else None)\<rparr>"
proof -
  have "(int i < int (length bucketed) - 1) = (i + 1 < length bucketed)" by linarith
  with assms show ?thesis
    by (simp add: findAdjacentAllocations_def getAllocationsInBucket_def Let_def)
qed

lemma findAdjacentAllocations_status_independent:
  "findAdjacentAllocations id'
     (s\<lparr>objects := \<lambda>x. (objects s x)\<lparr>a_status := st x, a_freedAt := fa x\<rparr>\<rparr>)
   = findAdjacentAllocations id' s"
  by (simp add: findAdjacentAllocations_def Let_def split: option.split)


lemma tracker_inv_position:
  assumes inv: "tracker_inv s"
    and known: "map_of (allocations s) id' = Some r"
  shows "\<exists>i. findIndex (\<lambda>a. a_id (objects s a) = id')
                (getAllocationsInBucket (findBucketForSize (a_size (objects s r))) s) = Some i
             \<and> getAllocationsInBucket (findBucketForSize (a_size (objects s r))) s ! i = r
             \<and> distinct (getAllocationsInBucket (findBucketForSize (a_size (objects s r))) s)"
proof -
  let ?bucketed = "getAllocationsInBucket (findBucketForSize (a_size (objects s r))) s"
  from inv known have idr: "a_id (objects s r) = id'" and mem: "r \<in> set ?bucketed"
    unfolding tracker_inv_def by blast+
  from mem obtain rs where rs: "map_of (buckets s) (findBucketForSize (a_size (objects s r))) = Some rs"
    unfolding in_bucket_iff by blast
  then have eq: "?bucketed = rs" by (simp add: getAllocationsInBucket_def)
  from inv rs have d: "distinct rs"
    and alloc_of: "\<forall>x\<in>set rs. map_of (allocations s) (a_id (objects s x)) = Some x"
    unfolding tracker_inv_def by blast+
  from mem idr have "findIndex (\<lambda>a. a_id (objects s a) = id') ?bucketed \<noteq> None"
    by (auto simp: findIndex_None)
  then obtain i where i: "findIndex (\<lambda>a. a_id (objects s a) = id') ?bucketed = Some i"
    by blast
  from findIndex_Some [OF i] have il: "i < length ?bucketed"
    and ii: "a_id (objects s (?bucketed ! i)) = id'" by blast+
  from il eq have "?bucketed ! i \<in> set rs" by simp
  with alloc_of have "map_of (allocations s) (a_id (objects s (?bucketed ! i))) = Some (?bucketed ! i)"
    by blast
  with ii known have "?bucketed ! i = r" by simp
  with i d eq show ?thesis by simp
qed

text \<open>
  Claim C6. In every state the tracker can reach, a known id with object \<open>r\<close> has a
  position \<open>i\<close> in the insertion-ordered sequence of its bucket (the sequence holds
  no object twice and \<open>r\<close> is its \<open>i\<close>-th member), and \<open>findAdjacentAllocations\<close>
  returns the member just before and the member just after that position, nothing where
  the sequence ends. The result does not depend on the status (or freed timestamp) of any
  object. On a fresh tracker, after \<open>recordAllocation(64, "Foo")\<close> and
  \<open>recordAllocation(64, "Bar")\<close>, the next of the first id is the second record and the
  prev of the second id is the first record.
\<close>

theorem findAdjacentAllocations_spec:
  "(\<forall>r. reachable s \<and> map_of (allocations s) id' = Some r \<longrightarrow>
      (\<exists>i. i < length (getAllocationsInBucket (findBucketForSize (a_size (objects s r))) s)
         \<and> distinct (getAllocationsInBucket (findBucketForSize (a_size (objects s r))) s)
         \<and> getAllocationsInBucket (findBucketForSize (a_size (objects s r))) s ! i = r
         \<and> findAdjacentAllocations id' s =
             \<lparr>adj_prev = (if 0 < i
                          then Some (getAllocationsInBucket
                                 (findBucketForSize (a_size (objects s r))) s ! (i - 1))
                          else None),
              adj_next = (if i + 1 < length (getAllocationsInBucket
                                 (findBucketForSize (a_size (objects s r))) s)
                          then Some (getAllocationsInBucket
                                 (findBucketForSize (a_size (objects s r))) s ! (i + 1))
                          else None)\<rparr>))
   \<and> findAdjacentAllocations id'
        (s\<lparr>objects := \<lambda>x. (objects s x)\<lparr>a_status := st x, a_freedAt := fa x\<rparr>\<rparr>)
      = findAdjacentAllocations id' s
   \<and> (let (firstId, s1) = recordAllocation t1 64 ''Foo'' md1 newHeapAnalyzer;
           (secondId, s2) = recordAllocation t2 64 ''Bar'' md2 s1
       in map_option (\<lambda>a. a_id (objects s2 a)) (adj_next (findAdjacentAllocations firstId s2))
            = Some secondId
          \<and> adj_next (findAdjacentAllocations firstId s2) = map_of (allocations s2) secondId
          \<and> map_option (\<lambda>a. a_id (objects s2 a)) (adj_prev (findAdjacentAllocations secondId s2))
            = Some firstId
          \<and> adj_prev (findAdjacentAllocations secondId s2) = map_of (allocations s2) firstId)"
proof (intro conjI allI impI)
  fix r
  assume h: "reachable s \<and> map_of (allocations s) id' = Some r"
  let ?bucketed = "getAllocationsInBucket (findBucketForSize (a_size (objects s r))) s"
  from h have inv: "tracker_inv s" and known: "map_of (allocations s) id' = Some r"
    by (simp_all add: reachable_tracker_inv)
  from tracker_inv_position [OF inv known] obtain i
    where i: "findIndex (\<lambda>a. a_id (objects s a) = id') ?bucketed = Some i"
      and at: "?bucketed ! i = r" and d: "distinct ?bucketed"
    by blast
  from findIndex_Some [OF i] have il: "i < length ?bucketed" by blast
  note res = findAdjacentAllocations_found [OF known refl i]
  from il d at res
  show "\<exists>i. i < length ?bucketed \<and> distinct ?bucketed \<and> ?bucketed ! i = r
         \<and> findAdjacentAllocations id' s =
             \<lparr>adj_prev = (if 0 < i then Some (?bucketed ! (i - 1)) else None),
              adj_next = (if i + 1 < length ?bucketed then Some (?bucketed ! (i + 1))
                          else None)\<rparr>"
    by blast
next
  show "findAdjacentAllocations id'
        (s\<lparr>objects := \<lambda>x. (objects s x)\<lparr>a_status := st x, a_freedAt := fa x\<rparr>\<rparr>)
      = findAdjacentAllocations id' s"
    by (rule findAdjacentAllocations_status_independent)
next
  have b: "findBucketForSize 64 = 64"
    by (simp add: findBucketForSize_def bucketSizes_def)
  show "let (firstId, s1) = recordAllocation t1 64 ''Foo'' md1 newHeapAnalyzer;
           (secondId, s2) = recordAllocation t2 64 ''Bar'' md2 s1
       in map_option (\<lambda>a. a_id (objects s2 a)) (adj_next (findAdjacentAllocations firstId s2))
            = Some secondId
          \<and> adj_next (findAdjacentAllocations firstId s2) = map_of (allocations s2) secondId
          \<and> map_option (\<lambda>a. a_id (objects s2 a)) (adj_prev (findAdjacentAllocations secondId s2))
            = Some firstId
          \<and> adj_prev (findAdjacentAllocations secondId s2) = map_of (allocations s2) firstId"
    by (simp add: recordAllocation_new b)
       (simp add: recordAllocation_def findAdjacentAllocations_def Let_def b)
qed


theorem findAdjacentAllocations_spec_witness:
  "reachable (snd (recordDeallocation 3 2 (snd (recordAllocation 2 64 ''Bar'' []
       (snd (recordAllocation 1 64 ''Foo'' [] newHeapAnalyzer))))))
   \<and> map_of (allocations (snd (recordDeallocation 3 2 (snd (recordAllocation 2 64 ''Bar'' []
       (snd (recordAllocation 1 64 ''Foo'' [] newHeapAnalyzer))))))) 1 = Some 0
   \<and> a_status (objects (snd (recordDeallocation 3 2 (snd (recordAllocation 2 64 ''Bar'' []
       (snd (recordAllocation 1 64 ''Foo'' [] newHeapAnalyzer)))))) 1) = Freed
   \<and> findAdjacentAllocations 1 (snd (recordDeallocation 3 2 (snd (recordAllocation 2 64 ''Bar'' []
       (snd (recordAllocation 1 64 ''Foo'' [] newHeapAnalyzer))))))
       = \<lparr>adj_prev = None, adj_next = Some 1\<rparr>"
proof -
  let ?S = "snd (recordDeallocation 3 2 (snd (recordAllocation 2 64 ''Bar'' []
       (snd (recordAllocation 1 64 ''Foo'' [] newHeapAnalyzer)))))"
  let ?B = "getAllocationsInBucket (findBucketForSize (a_size (objects ?S 0))) ?S"
  have b: "findBucketForSize 64 = 64"
    by (simp add: findBucketForSize_def bucketSizes_def)
  have reach: "reachable ?S"
    by (intro reachable_deallocation reachable_allocation reachable_new)
  have known: "map_of (allocations ?S) 1 = Some 0"
    by (simp add: recordAllocation_new b)
       (simp add: recordAllocation_def recordDeallocation_def Let_def b)
  have freed: "a_status (objects ?S 1) = Freed"
    by (simp add: recordAllocation_new b)
       (simp add: recordAllocation_def recordDeallocation_def Let_def b)
  have bucket: "?B = [0, 1]"
    by (simp add: recordAllocation_new b)
       (simp add: recordAllocation_def recordDeallocation_def getAllocationsInBucket_def
          Let_def b)
  from findAdjacentAllocations_spec [of ?S 1] reach known
  obtain i where i: "i < length ?B" and at: "?B ! i = 0"
    and res: "findAdjacentAllocations 1 ?S =
             \<lparr>adj_prev = (if 0 < i then Some (?B ! (i - 1)) else None),
              adj_next = (if i + 1 < length ?B then Some (?B ! (i + 1)) else None)\<rparr>"
    by blast
  from i at have "i = 0" unfolding bucket by (cases i) auto
  with res have "findAdjacentAllocations 1 ?S = \<lparr>adj_prev = None, adj_next = Some 1\<rparr>"
    unfolding bucket by simp
  with reach known freed show ?thesis by blast
qed

text \<open>
  Claim C8. After \<open>reset\<close> the allocation table, the buckets and the timeline are
  empty, the counters are zero and the id counter has the value it has in a fresh tracker,
  1; so the next \<open>recordAllocation\<close> returns id 1, and \<open>generateBucketStats\<close> and
  \<open>generateTypeStats\<close> are empty.
\<close>

theorem reset_spec:
  "allocations (reset s) = []
   \<and> buckets (reset s) = []
   \<and> timeline (reset s) = []
   \<and> stats (reset s) = \<lparr>totalAllocations = 0, totalDeallocations = 0,
                          maxLiveAllocations = 0, currentLiveAllocations = 0\<rparr>
   \<and> nextId (reset s) = nextId newHeapAnalyzer
   \<and> nextId (reset s) = 1
   \<and> fst (recordAllocation now size' type' md (reset s)) = 1
   \<and> generateBucketStats (reset s) = []
   \<and> generateTypeStats (reset s) = []"
  by (simp add: reset_def emptyStats_def newHeapAnalyzer_def recordAllocation_def Let_def
      generateBucketStats_def generateTypeStats_def)

text \<open>
  Claim C9. For an id that is not in the allocation table, \<open>findAdjacentAllocations\<close>
  returns no previous and no next record. (It reports no error and changes no state: the
  function only reads the tracker, and its result is this pair.)
\<close>

theorem findAdjacentAllocations_unknown:
  "map_of (allocations s) id' = None \<Longrightarrow>
   findAdjacentAllocations id' s = \<lparr>adj_prev = None, adj_next = None\<rparr>"
  by (simp add: findAdjacentAllocations_def)

theorem findAdjacentAllocations_unknown_witness:
  "map_of (allocations (snd (recordAllocation 1 64 ''Foo'' [] newHeapAnalyzer))) 7 = None
   \<and> findAdjacentAllocations 7 (snd (recordAllocation 1 64 ''Foo'' [] newHeapAnalyzer))
       = \<lparr>adj_prev = None, adj_next = None\<rparr>"
proof -
  have h: "map_of (allocations (snd (recordAllocation 1 64 ''Foo'' [] newHeapAnalyzer))) 7 = None"
    by (simp add: recordAllocation_new)
  from h findAdjacentAllocations_unknown [OF h] show ?thesis by (rule conjI)
qed

text \<open>
  Claim C10. \<open>recordDeallocation\<close> on an id whose record is already freed takes one
  more from the live count (and counts the deallocation and sets the freed timestamp
  again). So the live count is not bounded below by the number of live records: on a
  fresh tracker, one allocation followed by two deallocations of its id leaves
  \<open>currentLiveAllocations\<close> at \<open>-1\<close> while no record is live.
\<close>

theorem double_free_negative_live:
  "(\<forall>r. map_of (allocations s) id' = Some r \<and> a_status (objects s r) = Freed \<longrightarrow>
       currentLiveAllocations (stats (snd (recordDeallocation now id' s)))
         = currentLiveAllocations (stats s) - 1
       \<and> totalDeallocations (stats (snd (recordDeallocation now id' s)))
         = totalDeallocations (stats s) + 1
       \<and> a_freedAt (objects (snd (recordDeallocation now id' s)) r) = Some now)
   \<and> (let (id1, s1) = recordAllocation t0 size' type' md newHeapAnalyzer;
           s2 = snd (recordDeallocation t1 id1 s1);
           s3 = snd (recordDeallocation t2 id1 s2)
       in currentLiveAllocations (stats s1) = 1
          \<and> currentLiveAllocations (stats s2) = 0
          \<and> currentLiveAllocations (stats s3) = - 1
          \<and> currentLiveAllocations (stats s3) < 0
          \<and> getActiveAllocations s3 = []
          \<and> totalDeallocations (stats s3) = 2)"
proof (intro conjI allI impI)
  fix r
  assume "map_of (allocations s) id' = Some r \<and> a_status (objects s r) = Freed"
  then have k: "map_of (allocations s) id' = Some r" ..
  show "currentLiveAllocations (stats (snd (recordDeallocation now id' s)))
         = currentLiveAllocations (stats s) - 1"
    by (simp add: recordDeallocation_known [OF k])
  show "totalDeallocations (stats (snd (recordDeallocation now id' s)))
         = totalDeallocations (stats s) + 1"
    by (simp add: recordDeallocation_known [OF k])
  show "a_freedAt (objects (snd (recordDeallocation now id' s)) r) = Some now"
    by (simp add: recordDeallocation_known [OF k])
next
  show "let (id1, s1) = recordAllocation t0 size' type' md newHeapAnalyzer;
           s2 = snd (recordDeallocation t1 id1 s1);
           s3 = snd (recordDeallocation t2 id1 s2)
       in currentLiveAllocations (stats s1) = 1
          \<and> currentLiveAllocations (stats s2) = 0
          \<and> currentLiveAllocations (stats s3) = - 1
          \<and> currentLiveAllocations (stats s3) < 0
          \<and> getActiveAllocations s3 = []
          \<and> totalDeallocations (stats s3) = 2"
    by (simp add: recordAllocation_new recordDeallocation_def getActiveAllocations_def)
qed

theorem double_free_negative_live_witness:
  "map_of (allocations (snd (recordDeallocation 2 1
       (snd (recordAllocation 1 64 ''Foo'' [] newHeapAnalyzer))))) 1 = Some 0
   \<and> a_status (objects (snd (recordDeallocation 2 1
       (snd (recordAllocation 1 64 ''Foo'' [] newHeapAnalyzer)))) 0) = Freed
   \<and> currentLiveAllocations (stats (snd (recordDeallocation 2 1
       (snd (recordAllocation 1 64 ''Foo'' [] newHeapAnalyzer))))) = 0
   \<and> currentLiveAllocations (stats (snd (recordDeallocation 3 1 (snd (recordDeallocation 2 1
       (snd (recordAllocation 1 64 ''Foo'' [] newHeapAnalyzer))))))) = - 1"
proof -
  let ?s = "snd (recordDeallocation 2 1 (snd (recordAllocation 1 64 ''Foo'' [] newHeapAnalyzer)))"
  have h: "map_of (allocations ?s) 1 = Some 0 \<and> a_status (objects ?s 0) = Freed"
    by (simp add: recordAllocation_new recordDeallocation_def)
  have c: "currentLiveAllocations (stats ?s) = 0"
    by (simp add: recordAllocation_new recordDeallocation_def)
  from double_free_negative_live [of ?s 1 3] h
  have "currentLiveAllocations (stats (snd (recordDeallocation 3 1 ?s)))
         = currentLiveAllocations (stats ?s) - 1"
    by blast
  with h c show ?thesis by simp
qed

section \<open>Properties of the bug simulator\<close>

lemma stringIncludes_sublist: "stringIncludes s p \<longleftrightarrow> sublist p s"
  by (induction s) (simp_all add: sublist_Cons_right)

lemma assessOverflowSeverity_spec:
  "assessOverflowSeverity source target overflowSize =
     (if \<exists>t\<in>{''Function'', ''ArrayBuffer'', ''WebAssembly'', ''VTable''}. sublist t (a_type target)
      then Critical
      else if \<exists>t\<in>{''Array'', ''Object'', ''Map'', ''Set''}. sublist t (a_type target)
      then High
      else if overflowSize > 100 then High
      else if overflowSize > 16 then Medium
      else Low)"
  by (simp add: assessOverflowSeverity_def criticalTypes_def sensitiveTypes_def
      stringIncludes_sublist)

lemma simulateOverflow_ok:
  assumes "map_of (allocations (analyzer sim)) sourceId = Some source"
    and "a_status (objects (analyzer sim) source) = Allocated"
  shows "simulateOverflow now1 now2 sourceId overflowSize sim =
    (let adjacent = findAdjacentAllocations sourceId (analyzer sim);
         impact' =
           (case adj_next adjacent of
              None \<Rightarrow>
                emptyImpact\<lparr>severity := Some Low,
                  impact_notes := Some ''No active allocation would be directly corrupted''\<rparr>
            | Some nxt \<Rightarrow>
                if a_status (objects (analyzer sim) nxt) = Allocated
                then emptyImpact\<lparr>corruptedAllocation := Some nxt,
                       severity := Some (assessOverflowSeverity
                          (objects (analyzer sim) source)
                          (objects (analyzer sim) nxt) overflowSize)\<rparr>
                else emptyImpact\<lparr>severity := Some Low,
                       impact_notes := Some ''No active allocation would be directly corrupted''\<rparr>);
         bugDetails = \<lparr>b_id = nextBugId sim, b_type = BUFFER_OVERFLOW, b_sourceId = sourceId,
                       b_source = source, b_overflowSize = Some overflowSize,
                       b_wrongType = None, b_timestamp = now1, b_impact = impact'\<rparr>
     in (Inr bugDetails,
         sim\<lparr>analyzer := (analyzer sim)\<lparr>timeline := timeline (analyzer sim) @
                   [BugEvent now2 sourceId BUFFER_OVERFLOW (OverflowLog overflowSize
                      (map_option (\<lambda>n. a_id (objects (analyzer sim) n)) (adj_next adjacent)))]\<rparr>,
             activeBugs := AList.update (nextBugId sim) bugDetails (activeBugs sim),
             nextBugId := nextBugId sim + 1\<rparr>))"
  using assms by (simp add: simulateOverflow_def recordBug_def Let_def)


text \<open>
  Claim C2. For an id in the table whose record is allocated, \<open>simulateOverflow\<close>
  records an overflow bug and looks at the next neighbour that
  \<open>findAdjacentAllocations\<close> returns. If there is one and it is allocated, it is the
  corrupted allocation and the severity is \<open>assessOverflowSeverity\<close> of source,
  neighbour and overflow size; if there is none, or it is not allocated, nothing is
  recorded as corrupted, the severity is low and the note says that no active allocation
  would be corrupted. \<open>assessOverflowSeverity\<close> is critical if the target's type contains
  one of \<open>Function\<close>, \<open>ArrayBuffer\<close>, \<open>WebAssembly\<close>, \<open>VTable\<close>, else high if it
  contains one of \<open>Array\<close>, \<open>Object\<close>, \<open>Map\<close>, \<open>Set\<close>, else high above 100 bytes of
  overflow, medium above 16 and low otherwise.
\<close>

theorem simulateOverflow_spec:
  assumes known: "map_of (allocations (analyzer sim)) sourceId = Some source"
    and active: "a_status (objects (analyzer sim) source) = Allocated"
  shows "\<exists>bug. fst (simulateOverflow now1 now2 sourceId overflowSize sim) = Inr bug
     \<and> map_of (activeBugs (snd (simulateOverflow now1 now2 sourceId overflowSize sim)))
           (b_id bug) = Some bug
     \<and> b_type bug = BUFFER_OVERFLOW \<and> b_sourceId bug = sourceId
     \<and> b_overflowSize bug = Some overflowSize
     \<and> (\<forall>n. adj_next (findAdjacentAllocations sourceId (analyzer sim)) = Some n
              \<and> a_status (objects (analyzer sim) n) = Allocated \<longrightarrow>
            corruptedAllocation (b_impact bug) = Some n
            \<and> severity (b_impact bug) =
                Some (assessOverflowSeverity (objects (analyzer sim) source)
                        (objects (analyzer sim) n) overflowSize))
     \<and> (adj_next (findAdjacentAllocations sourceId (analyzer sim)) = None
          \<or> (\<exists>n. adj_next (findAdjacentAllocations sourceId (analyzer sim)) = Some n
                  \<and> a_status (objects (analyzer sim) n) \<noteq> Allocated) \<longrightarrow>
            corruptedAllocation (b_impact bug) = None
            \<and> severity (b_impact bug) = Some Low
            \<and> impact_notes (b_impact bug)
                = Some ''No active allocation would be directly corrupted'')
     \<and> (\<forall>src target.
           assessOverflowSeverity src target overflowSize =
             (if \<exists>t\<in>{''Function'', ''ArrayBuffer'', ''WebAssembly'', ''VTable''}.
                    sublist t (a_type target)
              then Critical
              else if \<exists>t\<in>{''Array'', ''Object'', ''Map'', ''Set''}. sublist t (a_type target)
              then High
              else if overflowSize > 100 then High
              else if overflowSize > 16 then Medium
              else Low))"
proof -
  let ?res = "simulateOverflow now1 now2 sourceId overflowSize sim"
  let ?next = "adj_next (findAdjacentAllocations sourceId (analyzer sim))"
  note eq = simulateOverflow_ok [OF known active, of now1 now2 overflowSize]
  obtain bug where bug: "fst ?res = Inr bug"
    by (simp add: eq Let_def)
  from bug have rec: "map_of (activeBugs (snd ?res)) (b_id bug) = Some bug"
    by (auto simp add: eq Let_def update_conv)
  from bug have kind: "b_type bug = BUFFER_OVERFLOW \<and> b_sourceId bug = sourceId
     \<and> b_overflowSize bug = Some overflowSize"
    by (auto simp add: eq Let_def)
  have hit: "corruptedAllocation (b_impact bug) = Some n
            \<and> severity (b_impact bug) =
                Some (assessOverflowSeverity (objects (analyzer sim) source)
                        (objects (analyzer sim) n) overflowSize)"
    if "?next = Some n \<and> a_status (objects (analyzer sim) n) = Allocated" for n
    using that bug by (auto simp add: eq Let_def emptyImpact_def)
  have miss: "corruptedAllocation (b_impact bug) = None
            \<and> severity (b_impact bug) = Some Low
            \<and> impact_notes (b_impact bug)
                = Some ''No active allocation would be directly corrupted''"
    if "?next = None \<or> (\<exists>n. ?next = Some n \<and> a_status (objects (analyzer sim) n) \<noteq> Allocated)"
    using that bug by (auto simp add: eq Let_def emptyImpact_def)
  from bug rec kind hit miss assessOverflowSeverity_spec show ?thesis
    by blast
qed

lemma findBucketForSize_64: "findBucketForSize 64 = 64"
  by (simp add: findBucketForSize_def bucketSizes_def)

lemma fiveBuffersThirdFreed_facts:
  "map_of (allocations fiveBuffersThirdFreed) 1 = Some 0"
  "map_of (allocations fiveBuffersThirdFreed) 2 = Some 1"
  "a_status (objects fiveBuffersThirdFreed 0) = Allocated"
  "a_status (objects fiveBuffersThirdFreed 1) = Allocated"
  "a_status (objects fiveBuffersThirdFreed 2) = Freed"
  "a_type (objects fiveBuffersThirdFreed 1) = ''ArrayBuffer''"
  "adj_next (findAdjacentAllocations 1 fiveBuffersThirdFreed) = Some 1"
  "adj_next (findAdjacentAllocations 2 fiveBuffersThirdFreed) = Some 2"
  by (simp_all add: fiveBuffersThirdFreed_def fiveBuffers_def recordAllocation_def
      recordDeallocation_def newHeapAnalyzer_def emptyStats_def findAdjacentAllocations_def
      findBucketForSize_64 Let_def)


theorem simulateOverflow_spec_witness:
  "map_of (allocations (analyzer (newBugSimulator fiveBuffersThirdFreed))) 2 = Some 1
   \<and> a_status (objects (analyzer (newBugSimulator fiveBuffersThirdFreed)) 1) = Allocated
   \<and> adj_next (findAdjacentAllocations 2 fiveBuffersThirdFreed) = Some 2
   \<and> a_status (objects fiveBuffersThirdFreed 2) = Freed
   \<and> (\<exists>bug. fst (simulateOverflow 7 8 2 8 (newBugSimulator fiveBuffersThirdFreed)) = Inr bug
          \<and> corruptedAllocation (b_impact bug) = None
          \<and> severity (b_impact bug) = Some Low
          \<and> impact_notes (b_impact bug)
              = Some ''No active allocation would be directly corrupted'')
   \<and> adj_next (findAdjacentAllocations 1 fiveBuffersThirdFreed) = Some 1
   \<and> (\<exists>bug. fst (simulateOverflow 7 8 1 8 (newBugSimulator fiveBuffersThirdFreed)) = Inr bug
          \<and> corruptedAllocation (b_impact bug) = Some 1
          \<and> severity (b_impact bug) = Some Critical)"
proof -
  let ?sim = "newBugSimulator fiveBuffersThirdFreed"
  have an: "analyzer ?sim = fiveBuffersThirdFreed"
    by (simp add: newBugSimulator_def)
  have k2: "map_of (allocations (analyzer ?sim)) 2 = Some 1"
    and a2: "a_status (objects (analyzer ?sim) 1) = Allocated"
    and k1: "map_of (allocations (analyzer ?sim)) 1 = Some 0"
    and a1: "a_status (objects (analyzer ?sim) 0) = Allocated"
    using fiveBuffersThirdFreed_facts by (simp_all add: an)
  from simulateOverflow_spec [OF k2 a2, of 7 8 8]
  obtain bug2 where b2: "fst (simulateOverflow 7 8 2 8 ?sim) = Inr bug2"
    and m2: "adj_next (findAdjacentAllocations 2 (analyzer ?sim)) = None
          \<or> (\<exists>n. adj_next (findAdjacentAllocations 2 (analyzer ?sim)) = Some n
                  \<and> a_status (objects (analyzer ?sim) n) \<noteq> Allocated) \<longrightarrow>
            corruptedAllocation (b_impact bug2) = None
            \<and> severity (b_impact bug2) = Some Low
            \<and> impact_notes (b_impact bug2)
                = Some ''No active allocation would be directly corrupted''"
    by blast
  have "\<exists>n. adj_next (findAdjacentAllocations 2 (analyzer ?sim)) = Some n
            \<and> a_status (objects (analyzer ?sim) n) \<noteq> Allocated"
    using fiveBuffersThirdFreed_facts by (simp add: an)
  with m2 have low: "corruptedAllocation (b_impact bug2) = None
            \<and> severity (b_impact bug2) = Some Low
            \<and> impact_notes (b_impact bug2)
                = Some ''No active allocation would be directly corrupted''"
    by blast
  from simulateOverflow_spec [OF k1 a1, of 7 8 8]
  obtain bug1 where b1: "fst (simulateOverflow 7 8 1 8 ?sim) = Inr bug1"
    and h1: "\<forall>n. adj_next (findAdjacentAllocations 1 (analyzer ?sim)) = Some n
              \<and> a_status (objects (analyzer ?sim) n) = Allocated \<longrightarrow>
            corruptedAllocation (b_impact bug1) = Some n
            \<and> severity (b_impact bug1) =
                Some (assessOverflowSeverity (objects (analyzer ?sim) 0)
                        (objects (analyzer ?sim) n) 8)"
    and sev: "\<forall>src target.
           assessOverflowSeverity src target 8 =
             (if \<exists>t\<in>{''Function'', ''ArrayBuffer'', ''WebAssembly'', ''VTable''}.
                    sublist t (a_type target)
              then Critical
              else if \<exists>t\<in>{''Array'', ''Object'', ''Map'', ''Set''}. sublist t (a_type target)
              then High
              else if (8::int) > 100 then High
              else if (8::int) > 16 then Medium
              else Low)"
    by blast
  have n1: "adj_next (findAdjacentAllocations 1 (analyzer ?sim)) = Some 1
            \<and> a_status (objects (analyzer ?sim) 1) = Allocated"
    using fiveBuffersThirdFreed_facts by (simp add: an)
  with h1 have c1: "corruptedAllocation (b_impact bug1) = Some 1"
    and s1: "severity (b_impact bug1) =
                Some (assessOverflowSeverity (objects (analyzer ?sim) 0)
                        (objects (analyzer ?sim) 1) 8)"
    by blast+
  have "assessOverflowSeverity (objects (analyzer ?sim) 0) (objects (analyzer ?sim) 1) 8
          = Critical"
    using fiveBuffersThirdFreed_facts by (simp add: sev an)
  with s1 have crit: "severity (b_impact bug1) = Some Critical" by simp
  from k2 a2 b2 low b1 c1 crit fiveBuffersThirdFreed_facts show ?thesis
    by simp
qed

lemma hd_sort_key_least:
  fixes f :: "'a \<Rightarrow> int"
  assumes "xs \<noteq> []"
  shows "hd (sort_key f xs) \<in> set xs \<and> (\<forall>x\<in>set xs. f (hd (sort_key f xs)) \<le> f x)"
proof -
  from assms have "length (sort_key f xs) \<noteq> 0" by simp
  then obtain y ys where ys: "sort_key f xs = y # ys"
    by (cases "sort_key f xs") auto
  have "set (sort_key f xs) = set xs" by simp
  with ys have mem: "y \<in> set xs" and sub: "set xs = insert y (set ys)" by auto
  have "sorted (map f (sort_key f xs))" by (rule sorted_sort_key)
  with ys have "\<forall>x\<in>set ys. f y \<le> f x" by simp
  with sub have "\<forall>x\<in>set xs. f y \<le> f x" by auto
  with mem ys show ?thesis by simp
qed

lemma assessUafSeverity_spec:
  "assessUafSeverity freed reuser =
     (if \<exists>t\<in>{''Function'', ''ArrayBuffer'', ''WebAssembly'', ''VTable''}. sublist t (a_type reuser)
      then Critical
      else if (\<exists>t\<in>{''Array'', ''Object'', ''Map'', ''Set''}. sublist t (a_type reuser))
              \<or> (\<exists>t\<in>{''Function'', ''ArrayBuffer'', ''WebAssembly'', ''VTable''}.
                     sublist t (a_type freed))
      then High
      else Medium)"
  by (simp add: assessUafSeverity_def criticalTypes_def sensitiveTypes_def
      stringIncludes_sublist)


lemma simulateUseAfterFree_ok:
  assumes "map_of (allocations (analyzer sim)) freedId = Some freedAlloc"
    and "a_status (objects (analyzer sim) freedAlloc) = Freed"
  shows "simulateUseAfterFree now1 now2 freedId sim =
    (let potentialReusers =
           filter (\<lambda>alloc. a_status (objects (analyzer sim) alloc) = Allocated
                     \<and> a_timestamp (objects (analyzer sim) alloc)
                         > (case a_freedAt (objects (analyzer sim) freedAlloc) of
                              None \<Rightarrow> 0 | Some t \<Rightarrow> t))
             (getAllocationsInBucket
                (findBucketForSize (a_size (objects (analyzer sim) freedAlloc))) (analyzer sim));
         impact' =
           (if potentialReusers \<noteq> []
            then emptyImpact\<lparr>reusingAllocation :=
                     Some (hd (sort_key (\<lambda>a. a_timestamp (objects (analyzer sim) a))
                                 potentialReusers)),
                   severity := Some (assessUafSeverity (objects (analyzer sim) freedAlloc)
                     (objects (analyzer sim)
                        (hd (sort_key (\<lambda>a. a_timestamp (objects (analyzer sim) a))
                               potentialReusers))))\<rparr>
            else emptyImpact\<lparr>severity := Some Medium,
                   impact_notes := Some
                     ''No reuse detected yet, but memory could be reused later''\<rparr>);
         bugDetails = \<lparr>b_id = nextBugId sim, b_type = USE_AFTER_FREE, b_sourceId = freedId,
                       b_source = freedAlloc, b_overflowSize = None,
                       b_wrongType = None, b_timestamp = now1, b_impact = impact'\<rparr>
     in (Inr bugDetails,
         sim\<lparr>analyzer := (analyzer sim)\<lparr>timeline := timeline (analyzer sim) @
                   [BugEvent now2 freedId USE_AFTER_FREE
                      (UafLog (map_option (\<lambda>n. a_id (objects (analyzer sim) n))
                                 (reusingAllocation impact')))]\<rparr>,
             activeBugs := AList.update (nextBugId sim) bugDetails (activeBugs sim),
             nextBugId := nextBugId sim + 1\<rparr>))"
proof -
  have t: "(case a_freedAt (objects (analyzer sim) freedAlloc) of
              None \<Rightarrow> 0 | Some t \<Rightarrow> if t = 0 then 0 else t)
           = (case a_freedAt (objects (analyzer sim) freedAlloc) of None \<Rightarrow> 0 | Some t \<Rightarrow> t)"
    by (simp split: option.split)
  from assms show ?thesis
    by (simp add: simulateUseAfterFree_def recordBug_def Let_def t)
qed

text \<open>
  Claim C3. For an id in the table whose record is freed, \<open>simulateUseAfterFree\<close>
  records a use-after-free bug. The candidates are the members of the freed record's
  bucket that are allocated and were created strictly after the free timestamp (an absent
  free timestamp counts as 0, as in the source). When there is a candidate, the reuser
  is a candidate with the earliest creation timestamp, and the severity is critical if
  the reuser's type contains one of \<open>Function\<close>, \<open>ArrayBuffer\<close>, \<open>WebAssembly\<close>,
  \<open>VTable\<close>, high if it contains one of \<open>Array\<close>, \<open>Object\<close>, \<open>Map\<close>, \<open>Set\<close> or
  the freed record's type contains one of the first four, and medium otherwise. When
  there is no candidate, no reuser is recorded and the severity is medium, with the note
  that no reuse was detected.
\<close>

theorem simulateUseAfterFree_spec:
  assumes known: "map_of (allocations (analyzer sim)) freedId = Some freedAlloc"
    and freed: "a_status (objects (analyzer sim) freedAlloc) = Freed"
    and freedAt: "freedAt = (case a_freedAt (objects (analyzer sim) freedAlloc) of
                               None \<Rightarrow> 0 | Some t \<Rightarrow> t)"
    and candidates: "candidates =
          {r \<in> set (getAllocationsInBucket
                     (findBucketForSize (a_size (objects (analyzer sim) freedAlloc)))
                     (analyzer sim)).
             a_status (objects (analyzer sim) r) = Allocated
             \<and> a_timestamp (objects (analyzer sim) r) > freedAt}"
  shows "\<exists>bug. fst (simulateUseAfterFree now1 now2 freedId sim) = Inr bug
     \<and> map_of (activeBugs (snd (simulateUseAfterFree now1 now2 freedId sim))) (b_id bug)
         = Some bug
     \<and> b_type bug = USE_AFTER_FREE \<and> b_sourceId bug = freedId
     \<and> (candidates \<noteq> {} \<longrightarrow>
          (\<exists>reuser. reusingAllocation (b_impact bug) = Some reuser
             \<and> reuser \<in> candidates
             \<and> (\<forall>c\<in>candidates. a_timestamp (objects (analyzer sim) reuser)
                                  \<le> a_timestamp (objects (analyzer sim) c))
             \<and> severity (b_impact bug) =
                 Some (if \<exists>t\<in>{''Function'', ''ArrayBuffer'', ''WebAssembly'', ''VTable''}.
                            sublist t (a_type (objects (analyzer sim) reuser))
                       then Critical
                       else if (\<exists>t\<in>{''Array'', ''Object'', ''Map'', ''Set''}.
                                  sublist t (a_type (objects (analyzer sim) reuser)))
                               \<or> (\<exists>t\<in>{''Function'', ''ArrayBuffer'', ''WebAssembly'', ''VTable''}.
                                  sublist t (a_type (objects (analyzer sim) freedAlloc)))
                       then High
                       else Medium)))
     \<and> (candidates = {} \<longrightarrow>
          reusingAllocation (b_impact bug) = None
          \<and> severity (b_impact bug) = Some Medium
          \<and> impact_notes (b_impact bug)
              = Some ''No reuse detected yet, but memory could be reused later'')"
proof -
  let ?res = "simulateUseAfterFree now1 now2 freedId sim"
  let ?obj = "objects (analyzer sim)"
  let ?xs = "filter (\<lambda>alloc. a_status (?obj alloc) = Allocated
                     \<and> a_timestamp (?obj alloc) > freedAt)
             (getAllocationsInBucket (findBucketForSize (a_size (?obj freedAlloc)))
                (analyzer sim))"
  let ?m = "hd (sort_key (\<lambda>a. a_timestamp (?obj a)) ?xs)"
  note eq = simulateUseAfterFree_ok [OF known freed, of now1 now2, folded freedAt]
  have cs: "candidates = set ?xs"
    unfolding candidates by auto
  obtain bug where bug: "fst ?res = Inr bug"
    by (simp add: eq Let_def)
  from bug have rec: "map_of (activeBugs (snd ?res)) (b_id bug) = Some bug"
    by (auto simp add: eq Let_def update_conv)
  from bug have kind: "b_type bug = USE_AFTER_FREE \<and> b_sourceId bug = freedId"
    by (auto simp add: eq Let_def)
  have some: "\<exists>reuser. reusingAllocation (b_impact bug) = Some reuser
             \<and> reuser \<in> candidates
             \<and> (\<forall>c\<in>candidates. a_timestamp (?obj reuser) \<le> a_timestamp (?obj c))
             \<and> severity (b_impact bug) =
                 Some (if \<exists>t\<in>{''Function'', ''ArrayBuffer'', ''WebAssembly'', ''VTable''}.
                            sublist t (a_type (?obj reuser))
                       then Critical
                       else if (\<exists>t\<in>{''Array'', ''Object'', ''Map'', ''Set''}.
                                  sublist t (a_type (?obj reuser)))
                               \<or> (\<exists>t\<in>{''Function'', ''ArrayBuffer'', ''WebAssembly'', ''VTable''}.
                                  sublist t (a_type (?obj freedAlloc)))
                       then High
                       else Medium)"
    if ne: "candidates \<noteq> {}"
  proof -
    from ne have "set ?xs \<noteq> {}" unfolding cs .
    then have xs: "?xs \<noteq> []" using set_empty [of ?xs] by blast
    from hd_sort_key_least [OF xs, of "\<lambda>a. a_timestamp (?obj a)"] cs
    have least: "?m \<in> candidates"
      "\<forall>c\<in>candidates. a_timestamp (?obj ?m) \<le> a_timestamp (?obj c)"
      by blast+
    from bug xs have r: "reusingAllocation (b_impact bug) = Some ?m"
      and s: "severity (b_impact bug) = Some (assessUafSeverity (?obj freedAlloc) (?obj ?m))"
      by (auto simp add: eq Let_def emptyImpact_def)
    from s have "severity (b_impact bug) =
                 Some (if \<exists>t\<in>{''Function'', ''ArrayBuffer'', ''WebAssembly'', ''VTable''}.
                            sublist t (a_type (?obj ?m))
                       then Critical
                       else if (\<exists>t\<in>{''Array'', ''Object'', ''Map'', ''Set''}.
                                  sublist t (a_type (?obj ?m)))
                               \<or> (\<exists>t\<in>{''Function'', ''ArrayBuffer'', ''WebAssembly'', ''VTable''}.
                                  sublist t (a_type (?obj freedAlloc)))
                       then High
                       else Medium)"
      by (simp only: assessUafSeverity_spec)
    with r least show ?thesis by blast
  qed
  have none: "reusingAllocation (b_impact bug) = None
          \<and> severity (b_impact bug) = Some Medium
          \<and> impact_notes (b_impact bug)
              = Some ''No reuse detected yet, but memory could be reused later''"
    if e: "candidates = {}"
  proof -
    from e have "set ?xs = {}" unfolding cs .
    then have xs: "?xs = []" using set_empty [of ?xs] by blast
    from bug xs show ?thesis
      by (auto simp add: eq Let_def emptyImpact_def)
  qed
  from bug rec kind some none show ?thesis by blast
qed


lemma fiveBuffersThenReuse_facts:
  "map_of (allocations fiveBuffersThenReuse) 3 = Some 2"
  "a_status (objects fiveBuffersThenReuse 2) = Freed"
  "a_freedAt (objects fiveBuffersThenReuse 2) = Some 6"
  "a_size (objects fiveBuffersThenReuse 2) = 64"
  "getAllocationsInBucket 64 fiveBuffersThenReuse = [0, 1, 2, 3, 4, 5, 6]"
  "map (\<lambda>r. a_timestamp (objects fiveBuffersThenReuse r)) [0, 1, 2, 3, 4, 5, 6]
     = [1, 2, 3, 4, 5, 9, 8]"
  "map (\<lambda>r. a_status (objects fiveBuffersThenReuse r)) [0, 1, 2, 3, 4, 5, 6]
     = [Allocated, Allocated, Freed, Allocated, Allocated, Allocated, Allocated]"
  "a_type (objects fiveBuffersThenReuse 6) = ''Object''"
  "a_type (objects fiveBuffersThenReuse 2) = ''ArrayBuffer''"
  by (simp_all add: fiveBuffersThenReuse_def fiveBuffersThirdFreed_def fiveBuffers_def
      recordAllocation_def recordDeallocation_def newHeapAnalyzer_def emptyStats_def
      getAllocationsInBucket_def findBucketForSize_def bucketSizes_def Let_def)

lemma fiveBuffersThirdFreed_bucket:
  "map_of (allocations fiveBuffersThirdFreed) 3 = Some 2"
  "a_freedAt (objects fiveBuffersThirdFreed 2) = Some 6"
  "a_size (objects fiveBuffersThirdFreed 2) = 64"
  "getAllocationsInBucket 64 fiveBuffersThirdFreed = [0, 1, 2, 3, 4]"
  "map (\<lambda>r. a_timestamp (objects fiveBuffersThirdFreed r)) [0, 1, 2, 3, 4] = [1, 2, 3, 4, 5]"
  by (simp_all add: fiveBuffersThirdFreed_def fiveBuffers_def
      recordAllocation_def recordDeallocation_def newHeapAnalyzer_def emptyStats_def
      getAllocationsInBucket_def findBucketForSize_def bucketSizes_def Let_def)



lemma fiveBuffersThenReuse_later: "filter (\<lambda>r. a_status (objects fiveBuffersThenReuse r) = Allocated \<and> a_timestamp (objects fiveBuffersThenReuse r) > 6)
            [0, 1, 2, 3, 4, 5, 6] = [5, 6]"
      using fiveBuffersThenReuse_facts by simp

lemma fiveBuffersThenReuse_candidates:
  "{r \<in> set (getAllocationsInBucket
                     (findBucketForSize (a_size (objects (analyzer (newBugSimulator fiveBuffersThenReuse)) 2)))
                     (analyzer (newBugSimulator fiveBuffersThenReuse))).
             a_status (objects (analyzer (newBugSimulator fiveBuffersThenReuse)) r) = Allocated
             \<and> a_timestamp (objects (analyzer (newBugSimulator fiveBuffersThenReuse)) r)
                 > (case a_freedAt (objects (analyzer (newBugSimulator fiveBuffersThenReuse)) 2) of
                      None \<Rightarrow> 0 | Some t \<Rightarrow> t)} = set [5, 6]"
proof -
  have an: "analyzer (newBugSimulator fiveBuffersThenReuse) = fiveBuffersThenReuse"
    by (simp add: newBugSimulator_def)
  show ?thesis
    unfolding an fiveBuffersThenReuse_facts(3,4) findBucketForSize_64 fiveBuffersThenReuse_facts(5)
      option.case set_filter [symmetric] fiveBuffersThenReuse_later ..
qed

lemma fiveBuffersThirdFreed_later: "filter (\<lambda>r. a_status (objects fiveBuffersThirdFreed r) = Allocated
      \<and> a_timestamp (objects fiveBuffersThirdFreed r) > 6) [0, 1, 2, 3, 4] = []"
  using fiveBuffersThirdFreed_bucket by simp

lemma fiveBuffersThirdFreed_candidates:
  "{r \<in> set (getAllocationsInBucket
                     (findBucketForSize (a_size (objects (analyzer (newBugSimulator fiveBuffersThirdFreed)) 2)))
                     (analyzer (newBugSimulator fiveBuffersThirdFreed))).
             a_status (objects (analyzer (newBugSimulator fiveBuffersThirdFreed)) r) = Allocated
             \<and> a_timestamp (objects (analyzer (newBugSimulator fiveBuffersThirdFreed)) r)
                 > (case a_freedAt (objects (analyzer (newBugSimulator fiveBuffersThirdFreed)) 2) of
                      None \<Rightarrow> 0 | Some t \<Rightarrow> t)} = set []"
proof -
  have an: "analyzer (newBugSimulator fiveBuffersThirdFreed) = fiveBuffersThirdFreed"
    by (simp add: newBugSimulator_def)
  show ?thesis
    unfolding an fiveBuffersThirdFreed_bucket(2,3) findBucketForSize_64
      fiveBuffersThirdFreed_bucket(4) option.case set_filter [symmetric] fiveBuffersThirdFreed_later ..
qed

theorem simulateUseAfterFree_spec_witness:
  "map_of (allocations (analyzer (newBugSimulator fiveBuffersThenReuse))) 3 = Some 2
   \<and> a_status (objects (analyzer (newBugSimulator fiveBuffersThenReuse)) 2) = Freed
   \<and> (\<exists>bug. fst (simulateUseAfterFree 10 11 3 (newBugSimulator fiveBuffersThenReuse)) = Inr bug
          \<and> reusingAllocation (b_impact bug) = Some 6
          \<and> severity (b_impact bug) = Some High)
   \<and> map_of (allocations (analyzer (newBugSimulator fiveBuffersThirdFreed))) 3 = Some 2
   \<and> a_status (objects (analyzer (newBugSimulator fiveBuffersThirdFreed)) 2) = Freed
   \<and> (\<exists>bug. fst (simulateUseAfterFree 10 11 3 (newBugSimulator fiveBuffersThirdFreed)) = Inr bug
          \<and> reusingAllocation (b_impact bug) = None
          \<and> severity (b_impact bug) = Some Medium
          \<and> impact_notes (b_impact bug)
              = Some ''No reuse detected yet, but memory could be reused later'')"
proof -
  let ?A = "fiveBuffersThenReuse"
  let ?B = "fiveBuffersThirdFreed"
  have anA: "analyzer (newBugSimulator ?A) = ?A" and anB: "analyzer (newBugSimulator ?B) = ?B"
    by (simp_all add: newBugSimulator_def)
  have kA: "map_of (allocations (analyzer (newBugSimulator ?A))) 3 = Some 2"
    and fA: "a_status (objects (analyzer (newBugSimulator ?A)) 2) = Freed"
    unfolding anA by (rule fiveBuffersThenReuse_facts)+
  have kB: "map_of (allocations (analyzer (newBugSimulator ?B))) 3 = Some 2"
    and fB: "a_status (objects (analyzer (newBugSimulator ?B)) 2) = Freed"
    unfolding anB by (rule fiveBuffersThirdFreed_bucket fiveBuffersThirdFreed_facts)+
  have ts: "a_timestamp (objects ?A 5) = 9" "a_timestamp (objects ?A 6) = 8"
    using fiveBuffersThenReuse_facts(6) by simp_all
  from simulateUseAfterFree_spec [OF kA fA refl fiveBuffersThenReuse_candidates [symmetric], of 10 11]
  obtain bugA where HA: "fst (simulateUseAfterFree 10 11 3 (newBugSimulator ?A)) = Inr bugA
     \<and> map_of (activeBugs (snd (simulateUseAfterFree 10 11 3 (newBugSimulator ?A)))) (b_id bugA)
         = Some bugA
     \<and> b_type bugA = USE_AFTER_FREE \<and> b_sourceId bugA = 3
     \<and> (set [5, 6::nat] \<noteq> {} \<longrightarrow>
          (\<exists>reuser. reusingAllocation (b_impact bugA) = Some reuser
             \<and> reuser \<in> set [5, 6]
             \<and> (\<forall>c\<in>set [5, 6]. a_timestamp (objects (analyzer (newBugSimulator ?A)) reuser)
                                  \<le> a_timestamp (objects (analyzer (newBugSimulator ?A)) c))
             \<and> severity (b_impact bugA) =
                 Some (if \<exists>t\<in>{''Function'', ''ArrayBuffer'', ''WebAssembly'', ''VTable''}.
                            sublist t (a_type (objects (analyzer (newBugSimulator ?A)) reuser))
                       then Critical
                       else if (\<exists>t\<in>{''Array'', ''Object'', ''Map'', ''Set''}.
                                  sublist t (a_type (objects (analyzer (newBugSimulator ?A)) reuser)))
                               \<or> (\<exists>t\<in>{''Function'', ''ArrayBuffer'', ''WebAssembly'', ''VTable''}.
                                  sublist t (a_type (objects (analyzer (newBugSimulator ?A)) 2)))
                       then High
                       else Medium)))
     \<and> (set [5, 6::nat] = {} \<longrightarrow>
          reusingAllocation (b_impact bugA) = None
          \<and> severity (b_impact bugA) = Some Medium
          \<and> impact_notes (b_impact bugA)
              = Some ''No reuse detected yet, but memory could be reused later'')"
    by (rule exE)
  note bA = HA [THEN conjunct1]
  have "set [5, 6::nat] \<noteq> {}" by simp
  with HA [THEN conjunct2, THEN conjunct2, THEN conjunct2, THEN conjunct2, THEN conjunct1]
  obtain reuser where RA: "reusingAllocation (b_impact bugA) = Some reuser
             \<and> reuser \<in> set [5, 6]
             \<and> (\<forall>c\<in>set [5, 6]. a_timestamp (objects (analyzer (newBugSimulator ?A)) reuser)
                                  \<le> a_timestamp (objects (analyzer (newBugSimulator ?A)) c))
             \<and> severity (b_impact bugA) =
                 Some (if \<exists>t\<in>{''Function'', ''ArrayBuffer'', ''WebAssembly'', ''VTable''}.
                            sublist t (a_type (objects (analyzer (newBugSimulator ?A)) reuser))
                       then Critical
                       else if (\<exists>t\<in>{''Array'', ''Object'', ''Map'', ''Set''}.
                                  sublist t (a_type (objects (analyzer (newBugSimulator ?A)) reuser)))
                               \<or> (\<exists>t\<in>{''Function'', ''ArrayBuffer'', ''WebAssembly'', ''VTable''}.
                                  sublist t (a_type (objects (analyzer (newBugSimulator ?A)) 2)))
                       then High
                       else Medium)"
    by (elim impE exE) assumption
  note rA = RA [THEN conjunct1]
  note mem = RA [THEN conjunct2, THEN conjunct1]
  note least = RA [THEN conjunct2, THEN conjunct2, THEN conjunct1]
  note sA = RA [THEN conjunct2, THEN conjunct2, THEN conjunct2]
  have r6: "reuser = 6"
  proof (rule ccontr)
    assume "reuser \<noteq> 6"
    with mem have "reuser = 5" by simp
    with least ts show False by (simp add: anA)
  qed
  have ty: "a_type (objects (analyzer (newBugSimulator ?A)) reuser) = ''Object''"
    unfolding r6 anA by (rule fiveBuffersThenReuse_facts)
  have hA: "severity (b_impact bugA) = Some High"
    unfolding sA ty by (simp add: sublist_code)
  from simulateUseAfterFree_spec [OF kB fB refl fiveBuffersThirdFreed_candidates [symmetric], of 10 11]
  obtain bugB where HB: "fst (simulateUseAfterFree 10 11 3 (newBugSimulator ?B)) = Inr bugB
     \<and> map_of (activeBugs (snd (simulateUseAfterFree 10 11 3 (newBugSimulator ?B)))) (b_id bugB)
         = Some bugB
     \<and> b_type bugB = USE_AFTER_FREE \<and> b_sourceId bugB = 3
     \<and> (set ([]::nat list) \<noteq> {} \<longrightarrow>
          (\<exists>reuser. reusingAllocation (b_impact bugB) = Some reuser
             \<and> reuser \<in> set []
             \<and> (\<forall>c\<in>set []. a_timestamp (objects (analyzer (newBugSimulator ?B)) reuser)
                                  \<le> a_timestamp (objects (analyzer (newBugSimulator ?B)) c))
             \<and> severity (b_impact bugB) =
                 Some (if \<exists>t\<in>{''Function'', ''ArrayBuffer'', ''WebAssembly'', ''VTable''}.
                            sublist t (a_type (objects (analyzer (newBugSimulator ?B)) reuser))
                       then Critical
                       else if (\<exists>t\<in>{''Array'', ''Object'', ''Map'', ''Set''}.
                                  sublist t (a_type (objects (analyzer (newBugSimulator ?B)) reuser)))
                               \<or> (\<exists>t\<in>{''Function'', ''ArrayBuffer'', ''WebAssembly'', ''VTable''}.
                                  sublist t (a_type (objects (analyzer (newBugSimulator ?B)) 2)))
                       then High
                       else Medium)))
     \<and> (set ([]::nat list) = {} \<longrightarrow>
          reusingAllocation (b_impact bugB) = None
          \<and> severity (b_impact bugB) = Some Medium
          \<and> impact_notes (b_impact bugB)
              = Some ''No reuse detected yet, but memory could be reused later'')"
    by (rule exE)
  note bB = HB [THEN conjunct1]
  have "set ([]::nat list) = {}" by simp
  with HB [THEN conjunct2, THEN conjunct2, THEN conjunct2, THEN conjunct2, THEN conjunct2]
  have nB: "reusingAllocation (b_impact bugB) = None
          \<and> severity (b_impact bugB) = Some Medium
          \<and> impact_notes (b_impact bugB)
              = Some ''No reuse detected yet, but memory could be reused later''"
    by (rule mp)
  have exA: "\<exists>bug. fst (simulateUseAfterFree 10 11 3 (newBugSimulator ?A)) = Inr bug
          \<and> reusingAllocation (b_impact bug) = Some 6
          \<and> severity (b_impact bug) = Some High"
    using bA rA [unfolded r6] hA by (intro exI [of _ bugA] conjI)
  have exB: "\<exists>bug. fst (simulateUseAfterFree 10 11 3 (newBugSimulator ?B)) = Inr bug
          \<and> reusingAllocation (b_impact bug) = None
          \<and> severity (b_impact bug) = Some Medium
          \<and> impact_notes (b_impact bug)
              = Some ''No reuse detected yet, but memory could be reused later''"
    using bB nB by (intro exI [of _ bugB] conjI) (elim conjE, assumption)+
  show ?thesis
    by (intro conjI kA fA exA kB fB exB)
qed

section \<open>Exploitability scores\<close>

lemma map_sum_Inr_True:
  assumes "map_sum id f r = Inr (x, True)"
  shows "\<exists>a. r = Inr a \<and> f a = (x, True)"
  using assms by (cases r) auto

lemma assessExploitability_overflow:
  assumes "map_of (activeBugs sim) bugId = Some bug"
    and "b_type bug = BUFFER_OVERFLOW" and "b_overflowSize bug = Some n"
  shows "\<exists>a. assessExploitability bugId sim = Inr a
     \<and> score a =
         (case corruptedAllocation (b_impact bug) of
            None \<Rightarrow> - 20
          | Some target \<Rightarrow>
              (if sublist ''Function'' (a_type (objects (analyzer sim) target))
                  \<or> sublist ''ArrayBuffer'' (a_type (objects (analyzer sim) target))
               then 30 else 0)
              + (if n \<le> 8 then 20 else if n \<le> 64 then 10 else - 10))
         + (if totalAllocations (stats (analyzer sim)) > 100 then 10 else 0)
     \<and> overall a = (if score a \<ge> 40 then High else if score a \<ge> 20 then Medium else Low)"
proof -
  let ?X = "(case corruptedAllocation (b_impact bug) of
            None \<Rightarrow> - 20
          | Some target \<Rightarrow>
              (if sublist ''Function'' (a_type (objects (analyzer sim) target))
                  \<or> sublist ''ArrayBuffer'' (a_type (objects (analyzer sim) target))
               then 30 else 0)
              + (if n \<le> 8 then 20 else if n \<le> 64 then 10 else - 10))
         + (if totalAllocations (stats (analyzer sim)) > 100 then 10 else 0)"
  have "map_sum id (\<lambda>a. (score a, overall a = (if score a \<ge> 40 then High
            else if score a \<ge> 20 then Medium else Low)))
          (assessExploitability bugId sim) = Inr (?X, True)"
    using assms
    by (simp add: assessExploitability_def Let_def overflowAtMost_def addFactor_def addDifficulty_def
        stringIncludes_sublist split: option.split)
  from map_sum_Inr_True [OF this] show ?thesis by auto
qed


lemma assessExploitability_uaf:
  assumes "map_of (activeBugs sim) bugId = Some bug"
    and "b_type bug = USE_AFTER_FREE"
  shows "\<exists>a. assessExploitability bugId sim = Inr a
     \<and> score a =
         (case reusingAllocation (b_impact bug) of
            None \<Rightarrow> - 15
          | Some reuser \<Rightarrow>
              (if sublist ''Function'' (a_type (objects (analyzer sim) reuser))
                  \<or> sublist ''ArrayBuffer'' (a_type (objects (analyzer sim) reuser))
               then 30 else 0)
              + (if a_type (objects (analyzer sim) (b_source bug))
                    = a_type (objects (analyzer sim) reuser)
                 then 15 else - 10))
         + (if totalAllocations (stats (analyzer sim)) > 100 then 10 else 0)
     \<and> overall a = (if score a \<ge> 40 then High else if score a \<ge> 20 then Medium else Low)"
proof -
  let ?X = "(case reusingAllocation (b_impact bug) of
            None \<Rightarrow> - 15
          | Some reuser \<Rightarrow>
              (if sublist ''Function'' (a_type (objects (analyzer sim) reuser))
                  \<or> sublist ''ArrayBuffer'' (a_type (objects (analyzer sim) reuser))
               then 30 else 0)
              + (if a_type (objects (analyzer sim) (b_source bug))
                    = a_type (objects (analyzer sim) reuser)
                 then 15 else - 10))
         + (if totalAllocations (stats (analyzer sim)) > 100 then 10 else 0)"
  have "map_sum id (\<lambda>a. (score a, overall a = (if score a \<ge> 40 then High
            else if score a \<ge> 20 then Medium else Low)))
          (assessExploitability bugId sim) = Inr (?X, True)"
    using assms
    by (simp add: assessExploitability_def Let_def addFactor_def addDifficulty_def
        stringIncludes_sublist split: option.split)
  from map_sum_Inr_True [OF this] show ?thesis by auto
qed

lemma assessExploitability_confusion:
  assumes "map_of (activeBugs sim) bugId = Some bug"
    and "b_type bug = TYPE_CONFUSION" and "b_wrongType bug = Some w"
  shows "\<exists>a. assessExploitability bugId sim = Inr a
     \<and> score a =
         (if sublist ''Function'' w \<or> sublist ''ArrayBuffer'' w then 25 else 0)
         + (case exampleAllocation (b_impact bug) of
              None \<Rightarrow> - 10
            | Some example \<Rightarrow>
                (if a_size (objects (analyzer sim) (b_source bug))
                     > a_size (objects (analyzer sim) example)
                 then 20 else 0))
         + (if totalAllocations (stats (analyzer sim)) > 100 then 10 else 0)
     \<and> overall a = (if score a \<ge> 40 then High else if score a \<ge> 20 then Medium else Low)"
proof -
  let ?X = "(if sublist ''Function'' w \<or> sublist ''ArrayBuffer'' w then 25 else 0)
         + (case exampleAllocation (b_impact bug) of
              None \<Rightarrow> - 10
            | Some example \<Rightarrow>
                (if a_size (objects (analyzer sim) (b_source bug))
                     > a_size (objects (analyzer sim) example)
                 then 20 else 0))
         + (if totalAllocations (stats (analyzer sim)) > 100 then 10 else 0)"
  have "map_sum id (\<lambda>a. (score a, overall a = (if score a \<ge> 40 then High
            else if score a \<ge> 20 then Medium else Low)))
          (assessExploitability bugId sim) = Inr (?X, True)"
    using assms
    by (simp add: assessExploitability_def Let_def addFactor_def addDifficulty_def
        stringIncludes_sublist split: option.split)
  from map_sum_Inr_True [OF this] show ?thesis by auto
qed

lemma simulateOverflow_bugs:
  "map_of (activeBugs (snd (simulateOverflow now1 now2 sourceId overflowSize sim))) k = Some b
   \<Longrightarrow> map_of (activeBugs sim) k = Some b \<or> bugWellFormed b"
  by (auto simp add: simulateOverflow_def Let_def update_conv bugWellFormed_def
      split: option.splits if_splits)

lemma simulateUseAfterFree_bugs:
  "map_of (activeBugs (snd (simulateUseAfterFree now1 now2 freedId sim))) k = Some b
   \<Longrightarrow> map_of (activeBugs sim) k = Some b \<or> bugWellFormed b"
  by (auto simp add: simulateUseAfterFree_def Let_def update_conv bugWellFormed_def
      split: option.splits if_splits)

lemma simulateTypeConfusion_bugs:
  "map_of (activeBugs (snd (simulateTypeConfusion now1 now2 sourceId wrongType sim))) k = Some b
   \<Longrightarrow> map_of (activeBugs sim) k = Some b \<or> bugWellFormed b"
  by (auto simp add: simulateTypeConfusion_def Let_def update_conv bugWellFormed_def
      split: option.splits if_splits)

lemma removeBug_bugs:
  "map_of (activeBugs (removeBug bugId sim)) k = Some b \<Longrightarrow> map_of (activeBugs sim) k = Some b"
  by (auto simp add: removeBug_def delete_conv split: if_splits)

lemma simReachable_bugs:
  "simReachable sim \<Longrightarrow> map_of (activeBugs sim) k = Some b \<Longrightarrow> bugWellFormed b"
proof (induction arbitrary: k b rule: simReachable.induct)
  case simReachable_new
  then show ?case by (simp add: newBugSimulator_def)
next
  case (simReachable_overflow sim now1 now2 sourceId overflowSize)
  from simulateOverflow_bugs [OF simReachable_overflow.prems] simReachable_overflow.IH
  show ?case by blast
next
  case (simReachable_useAfterFree sim now1 now2 freedId)
  from simulateUseAfterFree_bugs [OF simReachable_useAfterFree.prems]
    simReachable_useAfterFree.IH
  show ?case by blast
next
  case (simReachable_typeConfusion sim now1 now2 sourceId wrongType)
  from simulateTypeConfusion_bugs [OF simReachable_typeConfusion.prems]
    simReachable_typeConfusion.IH
  show ?case by blast
next
  case (simReachable_removeBug sim bugId)
  from removeBug_bugs [OF simReachable_removeBug.prems] simReachable_removeBug.IH
  show ?case by blast
next
  case (simReachable_resetSimulator sim)
  then show ?case by (simp add: resetSimulator_def)
qed simp_all

lemma tier_iff:
  fixes a :: assessment
  assumes "overall a = (if score a \<ge> 40 then High else if score a \<ge> 20 then Medium else Low)"
  shows "(overall a = High \<longleftrightarrow> score a \<ge> 40)
       \<and> (overall a = Medium \<longleftrightarrow> 20 \<le> score a \<and> score a < 40)
       \<and> (overall a = Low \<longleftrightarrow> score a < 20)"
  using assms by auto

text \<open>
  Claim C4, as amended. For a recorded bug, \<open>assessExploitability\<close> returns an
  assessment whose score is the sum of the deltas below and of 10 more when more than
  100 allocations were recorded; ``critical'' here means that the type contains
  \<open>Function\<close> or \<open>ArrayBuffer\<close>.
  Overflow: without a corrupted target, \<open>-20\<close>; with one, 30 if its type is critical,
  and 20 for an overflow of at most 8 bytes, else 10 for one of at most 64, else \<open>-10\<close>.
  Use after free: without a reuser, \<open>-15\<close>; with one, 30 if its type is critical, and 15
  if it has the type of the freed object, else \<open>-10\<close>.
  Type confusion: 25 if the wrong type is critical, and \<open>-10\<close> without an example, 20 with
  an example smaller than the source, 0 with any other example.
  The tier is high exactly when the score is at least 40, medium exactly when it is from
  20 to 39, low exactly when it is below 20.
  Every bug that the simulator can have recorded is of one of these three kinds, an
  overflow bug with its overflow size and a type-confusion bug with its wrong type.
\<close>

theorem assessExploitability_spec:
  assumes recorded: "map_of (activeBugs sim) bugId = Some bug"
  shows "(simReachable sim \<longrightarrow>
       (b_type bug = BUFFER_OVERFLOW \<and> (\<exists>n. b_overflowSize bug = Some n))
       \<or> b_type bug = USE_AFTER_FREE
       \<or> (b_type bug = TYPE_CONFUSION \<and> (\<exists>w. b_wrongType bug = Some w)))
   \<and> (b_type bug = BUFFER_OVERFLOW \<and> b_overflowSize bug = Some n \<longrightarrow>
       (\<exists>a. assessExploitability bugId sim = Inr a
          \<and> score a =
              (case corruptedAllocation (b_impact bug) of
                 None \<Rightarrow> - 20
               | Some target \<Rightarrow>
                   (if sublist ''Function'' (a_type (objects (analyzer sim) target))
                       \<or> sublist ''ArrayBuffer'' (a_type (objects (analyzer sim) target))
                    then 30 else 0)
                   + (if n \<le> 8 then 20 else if n \<le> 64 then 10 else - 10))
              + (if totalAllocations (stats (analyzer sim)) > 100 then 10 else 0)
          \<and> (overall a = High \<longleftrightarrow> score a \<ge> 40)
          \<and> (overall a = Medium \<longleftrightarrow> 20 \<le> score a \<and> score a < 40)
          \<and> (overall a = Low \<longleftrightarrow> score a < 20)))
   \<and> (b_type bug = USE_AFTER_FREE \<longrightarrow>
       (\<exists>a. assessExploitability bugId sim = Inr a
          \<and> score a =
              (case reusingAllocation (b_impact bug) of
                 None \<Rightarrow> - 15
               | Some reuser \<Rightarrow>
                   (if sublist ''Function'' (a_type (objects (analyzer sim) reuser))
                       \<or> sublist ''ArrayBuffer'' (a_type (objects (analyzer sim) reuser))
                    then 30 else 0)
                   + (if a_type (objects (analyzer sim) (b_source bug))
                         = a_type (objects (analyzer sim) reuser)
                      then 15 else - 10))
              + (if totalAllocations (stats (analyzer sim)) > 100 then 10 else 0)
          \<and> (overall a = High \<longleftrightarrow> score a \<ge> 40)
          \<and> (overall a = Medium \<longleftrightarrow> 20 \<le> score a \<and> score a < 40)
          \<and> (overall a = Low \<longleftrightarrow> score a < 20)))
   \<and> (b_type bug = TYPE_CONFUSION \<and> b_wrongType bug = Some w \<longrightarrow>
       (\<exists>a. assessExploitability bugId sim = Inr a
          \<and> score a =
              (if sublist ''Function'' w \<or> sublist ''ArrayBuffer'' w then 25 else 0)
              + (case exampleAllocation (b_impact bug) of
                   None \<Rightarrow> - 10
                 | Some example \<Rightarrow>
                     (if a_size (objects (analyzer sim) (b_source bug))
                          > a_size (objects (analyzer sim) example)
                      then 20 else 0))
              + (if totalAllocations (stats (analyzer sim)) > 100 then 10 else 0)
          \<and> (overall a = High \<longleftrightarrow> score a \<ge> 40)
          \<and> (overall a = Medium \<longleftrightarrow> 20 \<le> score a \<and> score a < 40)
          \<and> (overall a = Low \<longleftrightarrow> score a < 20)))"
proof (intro conjI impI)
  assume "simReachable sim"
  from simReachable_bugs [OF this recorded]
  show "(b_type bug = BUFFER_OVERFLOW \<and> (\<exists>n. b_overflowSize bug = Some n))
       \<or> b_type bug = USE_AFTER_FREE
       \<or> (b_type bug = TYPE_CONFUSION \<and> (\<exists>w. b_wrongType bug = Some w))"
    by (simp add: bugWellFormed_def)
next
  assume h: "b_type bug = BUFFER_OVERFLOW \<and> b_overflowSize bug = Some n"
  from assessExploitability_overflow [OF recorded h [THEN conjunct1] h [THEN conjunct2]]
  obtain a where a: "assessExploitability bugId sim = Inr a"
    and s: "score a =
              (case corruptedAllocation (b_impact bug) of
                 None \<Rightarrow> - 20
               | Some target \<Rightarrow>
                   (if sublist ''Function'' (a_type (objects (analyzer sim) target))
                       \<or> sublist ''ArrayBuffer'' (a_type (objects (analyzer sim) target))
                    then 30 else 0)
                   + (if n \<le> 8 then 20 else if n \<le> 64 then 10 else - 10))
              + (if totalAllocations (stats (analyzer sim)) > 100 then 10 else 0)"
    and t: "overall a = (if score a \<ge> 40 then High else if score a \<ge> 20 then Medium else Low)"
    by (elim exE conjE)
  from a s tier_iff [OF t]
  show "\<exists>a. assessExploitability bugId sim = Inr a
          \<and> score a =
              (case corruptedAllocation (b_impact bug) of
                 None \<Rightarrow> - 20
               | Some target \<Rightarrow>
                   (if sublist ''Function'' (a_type (objects (analyzer sim) target))
                       \<or> sublist ''ArrayBuffer'' (a_type (objects (analyzer sim) target))
                    then 30 else 0)
                   + (if n \<le> 8 then 20 else if n \<le> 64 then 10 else - 10))
              + (if totalAllocations (stats (analyzer sim)) > 100 then 10 else 0)
          \<and> (overall a = High \<longleftrightarrow> score a \<ge> 40)
          \<and> (overall a = Medium \<longleftrightarrow> 20 \<le> score a \<and> score a < 40)
          \<and> (overall a = Low \<longleftrightarrow> score a < 20)"
    by (intro exI [of _ a] conjI) (elim conjE, assumption)+
next
  assume h: "b_type bug = USE_AFTER_FREE"
  from assessExploitability_uaf [OF recorded h]
  obtain a where a: "assessExploitability bugId sim = Inr a"
    and s: "score a =
              (case reusingAllocation (b_impact bug) of
                 None \<Rightarrow> - 15
               | Some reuser \<Rightarrow>
                   (if sublist ''Function'' (a_type (objects (analyzer sim) reuser))
                       \<or> sublist ''ArrayBuffer'' (a_type (objects (analyzer sim) reuser))
                    then 30 else 0)
                   + (if a_type (objects (analyzer sim) (b_source bug))
                         = a_type (objects (analyzer sim) reuser)
                      then 15 else - 10))
              + (if totalAllocations (stats (analyzer sim)) > 100 then 10 else 0)"
    and t: "overall a = (if score a \<ge> 40 then High else if score a \<ge> 20 then Medium else Low)"
    by (elim exE conjE)
  from a s tier_iff [OF t]
  show "\<exists>a. assessExploitability bugId sim = Inr a
          \<and> score a =
              (case reusingAllocation (b_impact bug) of
                 None \<Rightarrow> - 15
               | Some reuser \<Rightarrow>
                   (if sublist ''Function'' (a_type (objects (analyzer sim) reuser))
                       \<or> sublist ''ArrayBuffer'' (a_type (objects (analyzer sim) reuser))
                    then 30 else 0)
                   + (if a_type (objects (analyzer sim) (b_source bug))
                         = a_type (objects (analyzer sim) reuser)
                      then 15 else - 10))
              + (if totalAllocations (stats (analyzer sim)) > 100 then 10 else 0)
          \<and> (overall a = High \<longleftrightarrow> score a \<ge> 40)
          \<and> (overall a = Medium \<longleftrightarrow> 20 \<le> score a \<and> score a < 40)
          \<and> (overall a = Low \<longleftrightarrow> score a < 20)"
    by (intro exI [of _ a] conjI) (elim conjE, assumption)+
next
  assume h: "b_type bug = TYPE_CONFUSION \<and> b_wrongType bug = Some w"
  from assessExploitability_confusion [OF recorded h [THEN conjunct1] h [THEN conjunct2]]
  obtain a where a: "assessExploitability bugId sim = Inr a"
    and s: "score a =
              (if sublist ''Function'' w \<or> sublist ''ArrayBuffer'' w then 25 else 0)
              + (case exampleAllocation (b_impact bug) of
                   None \<Rightarrow> - 10
                 | Some example \<Rightarrow>
                     (if a_size (objects (analyzer sim) (b_source bug))
                          > a_size (objects (analyzer sim) example)
                      then 20 else 0))
              + (if totalAllocations (stats (analyzer sim)) > 100 then 10 else 0)"
    and t: "overall a = (if score a \<ge> 40 then High else if score a \<ge> 20 then Medium else Low)"
    by (elim exE conjE)
  from a s tier_iff [OF t]
  show "\<exists>a. assessExploitability bugId sim = Inr a
          \<and> score a =
              (if sublist ''Function'' w \<or> sublist ''ArrayBuffer'' w then 25 else 0)
              + (case exampleAllocation (b_impact bug) of
                   None \<Rightarrow> - 10
                 | Some example \<Rightarrow>
                     (if a_size (objects (analyzer sim) (b_source bug))
                          > a_size (objects (analyzer sim) example)
                      then 20 else 0))
              + (if totalAllocations (stats (analyzer sim)) > 100 then 10 else 0)
          \<and> (overall a = High \<longleftrightarrow> score a \<ge> 40)
          \<and> (overall a = Medium \<longleftrightarrow> 20 \<le> score a \<and> score a < 40)
          \<and> (overall a = Low \<longleftrightarrow> score a < 20)"
    by (intro exI [of _ a] conjI) (elim conjE, assumption)+
qed

lemma vtableOverflow_bug:
  "map_of (activeBugs vtableOverflow) 1 =
     Some \<lparr>b_id = 1, b_type = BUFFER_OVERFLOW, b_sourceId = 1, b_source = 0,
           b_overflowSize = Some 4, b_wrongType = None, b_timestamp = 3,
           b_impact = \<lparr>severity = Some Critical, impact_notes = None,
                        corruptedAllocation = Some 1, reusingAllocation = None,
                        originalType = None, confusedType = None,
                        exampleAllocation = None\<rparr>\<rparr>"
  by (simp add: vtableOverflow_def simulateOverflow_def newBugSimulator_def recordAllocation_def
      newHeapAnalyzer_def emptyStats_def findAdjacentAllocations_def findBucketForSize_64
      recordBug_def assessOverflowSeverity_def criticalTypes_def emptyImpact_def Let_def)

lemma vtableOverflow_state:
  "a_type (objects (analyzer vtableOverflow) 1) = ''VTable''"
  "totalAllocations (stats (analyzer vtableOverflow)) = 2"
  by (simp_all add: vtableOverflow_def simulateOverflow_def newBugSimulator_def
      recordAllocation_def newHeapAnalyzer_def emptyStats_def findBucketForSize_64
      recordBug_def Let_def)

lemma vtableOverflow_assessment:
  "assessExploitability 1 vtableOverflow =
     Inr \<lparr>overall = Medium, factors = [''Small, controlled overflow size''],
          difficulties = [], score = 20\<rparr>"
  unfolding assessExploitability_def vtableOverflow_bug
  using vtableOverflow_state
  by (simp add: Let_def overflowAtMost_def addFactor_def)

lemma claimed_vtable: "claimedOverflowScore (Some ''VTable'') 4 2 = 50"
  by (simp add: claimedOverflowScore_def criticalTypes_def)


text \<open>
  Claim C4 as stated fails where the target's type is in the critical set without
  containing \<open>Function\<close> or \<open>ArrayBuffer\<close>: a 4-byte overflow into a \<open>VTable\<close> is
  assessed at 20 (medium), where the claim's deltas give 30 + 20 = 50 (high).
\<close>

theorem assessExploitability_critical_counterexample:
  "map_of (activeBugs vtableOverflow) 1 =
     Some \<lparr>b_id = 1, b_type = BUFFER_OVERFLOW, b_sourceId = 1, b_source = 0,
           b_overflowSize = Some 4, b_wrongType = None, b_timestamp = 3,
           b_impact = \<lparr>severity = Some Critical, impact_notes = None,
                        corruptedAllocation = Some 1, reusingAllocation = None,
                        originalType = None, confusedType = None,
                        exampleAllocation = None\<rparr>\<rparr>
   \<and> a_type (objects (analyzer vtableOverflow) 1) = ''VTable''
   \<and> totalAllocations (stats (analyzer vtableOverflow)) = 2
   \<and> assessExploitability 1 vtableOverflow =
       Inr \<lparr>overall = Medium, factors = [''Small, controlled overflow size''],
            difficulties = [], score = 20\<rparr>
   \<and> claimedOverflowScore (Some ''VTable'') 4 2 = 50"
  by (intro conjI vtableOverflow_bug vtableOverflow_state vtableOverflow_assessment
      claimed_vtable)

lemma reusedAfterFree_bug:
  "map_of (activeBugs reusedAfterFree) 1 =
     Some \<lparr>b_id = 1, b_type = USE_AFTER_FREE, b_sourceId = 3, b_source = 2,
           b_overflowSize = None, b_wrongType = None, b_timestamp = 10,
           b_impact = \<lparr>severity = Some High, impact_notes = None,
                        corruptedAllocation = None, reusingAllocation = Some 6,
                        originalType = None, confusedType = None,
                        exampleAllocation = None\<rparr>\<rparr>"
  "a_type (objects (analyzer reusedAfterFree) 6) = ''Object''"
  "a_type (objects (analyzer reusedAfterFree) 2) = ''ArrayBuffer''"
  "totalAllocations (stats (analyzer reusedAfterFree)) = 7"
  by (simp_all add: reusedAfterFree_def simulateUseAfterFree_def newBugSimulator_def
      fiveBuffersThenReuse_def fiveBuffersThirdFreed_def fiveBuffers_def
      recordAllocation_def recordDeallocation_def newHeapAnalyzer_def emptyStats_def
      getAllocationsInBucket_def findBucketForSize_def bucketSizes_def recordBug_def
      assessUafSeverity_def criticalTypes_def sensitiveTypes_def emptyImpact_def Let_def)

lemma confusedAfterFree_bug:
  "map_of (activeBugs confusedAfterFree) 1 =
     Some \<lparr>b_id = 1, b_type = TYPE_CONFUSION, b_sourceId = 1, b_source = 0,
           b_overflowSize = None, b_wrongType = Some ''Bar'', b_timestamp = 4,
           b_impact = \<lparr>severity = Some Unknown,
                        impact_notes = Some ''No examples of Bar available for comparison'',
                        corruptedAllocation = None, reusingAllocation = None,
                        originalType = Some ''Foo'', confusedType = Some ''Bar'',
                        exampleAllocation = None\<rparr>\<rparr>"
  "totalAllocations (stats (analyzer confusedAfterFree)) = 2"
  by (simp_all add: confusedAfterFree_def simulateTypeConfusion_def newBugSimulator_def
      recordAllocation_def recordDeallocation_def newHeapAnalyzer_def emptyStats_def
      findBucketForSize_def bucketSizes_def ceiling_div_128 recordBug_def emptyImpact_def
      Let_def)


theorem assessExploitability_spec_witness:
  "simReachable vtableOverflow
   \<and> (\<exists>a. assessExploitability 1 vtableOverflow = Inr a \<and> score a = 20 \<and> overall a = Medium)
   \<and> (\<exists>a. assessExploitability 1 reusedAfterFree = Inr a \<and> score a = - 10 \<and> overall a = Low)
   \<and> (\<exists>a. assessExploitability 1 confusedAfterFree = Inr a \<and> score a = - 10
          \<and> overall a = Low)"
proof -
  let ?b1 = "\<lparr>b_id = 1, b_type = BUFFER_OVERFLOW, b_sourceId = 1, b_source = 0,
           b_overflowSize = Some 4, b_wrongType = None, b_timestamp = 3,
           b_impact = \<lparr>severity = Some Critical, impact_notes = None,
                        corruptedAllocation = Some 1, reusingAllocation = None,
                        originalType = None, confusedType = None,
                        exampleAllocation = None\<rparr>\<rparr>"
  let ?b2 = "\<lparr>b_id = 1, b_type = USE_AFTER_FREE, b_sourceId = 3, b_source = 2,
           b_overflowSize = None, b_wrongType = None, b_timestamp = 10,
           b_impact = \<lparr>severity = Some High, impact_notes = None,
                        corruptedAllocation = None, reusingAllocation = Some 6,
                        originalType = None, confusedType = None,
                        exampleAllocation = None\<rparr>\<rparr>"
  let ?b3 = "\<lparr>b_id = 1, b_type = TYPE_CONFUSION, b_sourceId = 1, b_source = 0,
           b_overflowSize = None, b_wrongType = Some ''Bar'', b_timestamp = 4,
           b_impact = \<lparr>severity = Some Unknown,
                        impact_notes = Some ''No examples of Bar available for comparison'',
                        corruptedAllocation = None, reusingAllocation = None,
                        originalType = Some ''Foo'', confusedType = Some ''Bar'',
                        exampleAllocation = None\<rparr>\<rparr>"
  have h1: "b_type ?b1 = BUFFER_OVERFLOW \<and> b_overflowSize ?b1 = Some 4" by simp
  have h2: "b_type ?b2 = USE_AFTER_FREE" by simp
  have h3: "b_type ?b3 = TYPE_CONFUSION \<and> b_wrongType ?b3 = Some ''Bar''" by simp
  from assessExploitability_spec [OF vtableOverflow_bug, of 4, THEN conjunct2, THEN conjunct1,
      THEN mp, OF h1]
  obtain a1 where a1: "assessExploitability 1 vtableOverflow = Inr a1"
    and s1: "score a1 =
              (case corruptedAllocation (b_impact ?b1) of
                 None \<Rightarrow> - 20
               | Some target \<Rightarrow>
                   (if sublist ''Function'' (a_type (objects (analyzer vtableOverflow) target))
                       \<or> sublist ''ArrayBuffer'' (a_type (objects (analyzer vtableOverflow) target))
                    then 30 else 0)
                   + (if (4::int) \<le> 8 then 20 else if (4::int) \<le> 64 then 10 else - 10))
              + (if totalAllocations (stats (analyzer vtableOverflow)) > 100 then 10 else 0)"
    and m1: "overall a1 = Medium \<longleftrightarrow> 20 \<le> score a1 \<and> score a1 < 40"
    by (elim exE conjE)
  from s1 have v1: "score a1 = 20"
    using vtableOverflow_state by (simp add: sublist_code)
  from m1 v1 have o1: "overall a1 = Medium" by simp
  from assessExploitability_spec [OF reusedAfterFree_bug(1), THEN conjunct2, THEN conjunct2,
      THEN conjunct1, THEN mp, OF h2]
  obtain a2 where a2: "assessExploitability 1 reusedAfterFree = Inr a2"
    and s2: "score a2 =
              (case reusingAllocation (b_impact ?b2) of
                 None \<Rightarrow> - 15
               | Some reuser \<Rightarrow>
                   (if sublist ''Function'' (a_type (objects (analyzer reusedAfterFree) reuser))
                       \<or> sublist ''ArrayBuffer'' (a_type (objects (analyzer reusedAfterFree) reuser))
                    then 30 else 0)
                   + (if a_type (objects (analyzer reusedAfterFree) (b_source ?b2))
                         = a_type (objects (analyzer reusedAfterFree) reuser)
                      then 15 else - 10))
              + (if totalAllocations (stats (analyzer reusedAfterFree)) > 100 then 10 else 0)"
    and l2: "overall a2 = Low \<longleftrightarrow> score a2 < 20"
    by (elim exE conjE)
  from s2 have v2: "score a2 = - 10"
    using reusedAfterFree_bug(2,3,4) by (simp add: sublist_code)
  from l2 v2 have o2: "overall a2 = Low" by simp
  from assessExploitability_spec [OF confusedAfterFree_bug(1), of _ "''Bar''",
      THEN conjunct2, THEN conjunct2, THEN conjunct2, THEN mp, OF h3]
  obtain a3 where a3: "assessExploitability 1 confusedAfterFree = Inr a3"
    and s3: "score a3 =
              (if sublist ''Function'' ''Bar'' \<or> sublist ''ArrayBuffer'' ''Bar'' then 25 else 0)
              + (case exampleAllocation (b_impact ?b3) of
                   None \<Rightarrow> - 10
                 | Some example \<Rightarrow>
                     (if a_size (objects (analyzer confusedAfterFree) (b_source ?b3))
                          > a_size (objects (analyzer confusedAfterFree) example)
                      then 20 else 0))
              + (if totalAllocations (stats (analyzer confusedAfterFree)) > 100 then 10 else 0)"
    and l3: "overall a3 = Low \<longleftrightarrow> score a3 < 20"
    by (elim exE conjE)
  from s3 have v3: "score a3 = - 10"
    using confusedAfterFree_bug(2) by (simp add: sublist_code)
  from l3 v3 have o3: "overall a3 = Low" by simp
  have e1: "\<exists>a. assessExploitability 1 vtableOverflow = Inr a \<and> score a = 20
      \<and> overall a = Medium"
    using a1 v1 o1 by (intro exI [of _ a1] conjI)
  have e2: "\<exists>a. assessExploitability 1 reusedAfterFree = Inr a \<and> score a = - 10
      \<and> overall a = Low"
    using a2 v2 o2 by (intro exI [of _ a2] conjI)
  have e3: "\<exists>a. assessExploitability 1 confusedAfterFree = Inr a \<and> score a = - 10
      \<and> overall a = Low"
    using a3 v3 o3 by (intro exI [of _ a3] conjI)
  have n: "newBugSimulator (snd (recordAllocation now size' type' md an))
        = (newBugSimulator an)
            \<lparr>analyzer := snd (recordAllocation now size' type' md
                          (analyzer (newBugSimulator an)))\<rparr>" for now size' type' md an
    by (simp add: newBugSimulator_def)
  have r: "simReachable vtableOverflow"
    unfolding vtableOverflow_def n
    by (intro simReachable_overflow simReachable_allocation simReachable_new)
  from assessExploitability_spec [OF vtableOverflow_bug, THEN conjunct1, THEN mp, OF r]
  have "b_type ?b1 = BUFFER_OVERFLOW \<and> (\<exists>n. b_overflowSize ?b1 = Some n)"
    by simp
  with r e1 e2 e3 show ?thesis by (intro conjI)
qed

section \<open>Properties of the strategy generator\<close>

lemma filter_first_find:
  "(case filter P xs of [] \<Rightarrow> a | x # _ \<Rightarrow> f x) = (case find P xs of None \<Rightarrow> a | Some x \<Rightarrow> f x)"
  by (induction xs) simp_all

lemma generateTypeConfusionStrategy_result:
  assumes source: "map_of (allocations (analyzer sim)) (b_sourceId bug) = Some src"
    and sizeDiff: "sizeDiff =
        (case find (\<lambda>r. Some (a_type (objects (analyzer sim) r)) = b_wrongType bug)
                (map snd (allocations (analyzer sim))) of
           None \<Rightarrow> 0
         | Some example \<Rightarrow>
             a_size (objects (analyzer sim) src) - a_size (objects (analyzer sim) example))"
  shows "map_sum id (\<lambda>st. (st_approach st, map p_type (st_phases st), st_targetBug st))
           (generateTypeConfusionStrategy bug sim) =
         Inr (Some (if sizeDiff > 0 then ''size_mismatch_larger''
                    else if sizeDiff < 0 then ''size_mismatch_smaller''
                    else ''field_misinterpretation''),
              [''preparation'', ''confusion_setup'', ''exploit''], bug)"
  using source
  by (simp add: generateTypeConfusionStrategy_def Let_def filter_first_find
      sizeDiff [symmetric])


lemma map_sum_Inr:
  assumes "map_sum id f r = Inr v"
  shows "\<exists>a. r = Inr a \<and> f a = v"
  using assms by (cases r) auto

text \<open>
  Claim C7, as amended. For a recorded type-confusion bug whose source allocation is in
  the table, \<open>generateStrategyForBug\<close> takes as example the first record of the
  allocation table whose type is the wrong type, whether it is allocated or freed; the
  size difference is the size of the source minus the size of that example, and 0 when
  the table holds no record of that type. The plan has the approach
  \<open>size_mismatch_larger\<close> for a positive difference, \<open>size_mismatch_smaller\<close> for a
  negative one and \<open>field_misinterpretation\<close> for 0, and its three phases are, in this
  order, \<open>preparation\<close>, \<open>confusion_setup\<close> and \<open>exploit\<close>.
\<close>

theorem generateStrategyForBug_typeConfusion:
  assumes recorded: "map_of (activeBugs sim) bugId = Some bug"
    and kind: "b_type bug = TYPE_CONFUSION"
    and source: "map_of (allocations (analyzer sim)) (b_sourceId bug) = Some src"
    and sizeDiff: "sizeDiff =
        (case find (\<lambda>r. Some (a_type (objects (analyzer sim) r)) = b_wrongType bug)
                (map snd (allocations (analyzer sim))) of
           None \<Rightarrow> 0
         | Some example \<Rightarrow>
             a_size (objects (analyzer sim) src) - a_size (objects (analyzer sim) example))"
  shows "\<exists>st. generateStrategyForBug overflowBuilder uafBuilder genericBuilder bugId sim = Inr st
     \<and> st_approach st = Some (if sizeDiff > 0 then ''size_mismatch_larger''
                              else if sizeDiff < 0 then ''size_mismatch_smaller''
                              else ''field_misinterpretation'')
     \<and> map p_type (st_phases st) = [''preparation'', ''confusion_setup'', ''exploit'']
     \<and> length (st_phases st) = 3
     \<and> st_targetBug st = bug"
proof -
  have d: "generateStrategyForBug overflowBuilder uafBuilder genericBuilder bugId sim
           = generateTypeConfusionStrategy bug sim"
    using recorded kind by (simp add: generateStrategyForBug_def)
  from map_sum_Inr [OF generateTypeConfusionStrategy_result [OF source sizeDiff]]
  obtain st where st: "generateTypeConfusionStrategy bug sim = Inr st"
    and r: "(st_approach st, map p_type (st_phases st), st_targetBug st) =
         (Some (if sizeDiff > 0 then ''size_mismatch_larger''
                    else if sizeDiff < 0 then ''size_mismatch_smaller''
                    else ''field_misinterpretation''),
              [''preparation'', ''confusion_setup'', ''exploit''], bug)"
    by (elim exE conjE)
  from r have a: "st_approach st = Some (if sizeDiff > 0 then ''size_mismatch_larger''
                    else if sizeDiff < 0 then ''size_mismatch_smaller''
                    else ''field_misinterpretation'')"
    and p: "map p_type (st_phases st) = [''preparation'', ''confusion_setup'', ''exploit'']"
    and b: "st_targetBug st = bug"
    by (simp_all only: prod.inject)
  from p have "length (map p_type (st_phases st)) = 3" by simp
  then have l: "length (st_phases st) = 3" by simp
  from st d have g: "generateStrategyForBug overflowBuilder uafBuilder genericBuilder bugId sim
      = Inr st" by simp
  from g a p l b show ?thesis by (intro exI [of _ st] conjI)
qed

lemma confusedAfterFree_heap:
  "allocations (analyzer confusedAfterFree) = [(1, 0), (2, 1)]"
  "map (\<lambda>r. a_type (objects (analyzer confusedAfterFree) r)) [0, 1] = [''Foo'', ''Bar'']"
  "map (\<lambda>r. a_size (objects (analyzer confusedAfterFree) r)) [0, 1] = [64, 128]"
  "map (\<lambda>r. a_status (objects (analyzer confusedAfterFree) r)) [0, 1] = [Allocated, Freed]"
  by (simp_all add: confusedAfterFree_def simulateTypeConfusion_def newBugSimulator_def
      recordAllocation_def recordDeallocation_def newHeapAnalyzer_def emptyStats_def
      findBucketForSize_def bucketSizes_def ceiling_div_128 recordBug_def emptyImpact_def
      Let_def)

lemma confusedAfterFree_claimed:
  "claimedSizeDiff 0 (Some ''Bar'') confusedAfterFree = 0"
  using confusedAfterFree_heap by (simp add: claimedSizeDiff_def)

lemma confusedAfterFree_strategy:
  "map_sum id st_approach
     (generateStrategyForBug undefined undefined undefined 1 confusedAfterFree)
   = Inr (Some ''size_mismatch_smaller'')"
  unfolding generateStrategyForBug_def confusedAfterFree_bug
  using confusedAfterFree_heap
  by (simp add: generateTypeConfusionStrategy_def Let_def)


text \<open>
  Claim C7 as stated fails when the only record of the wrong type is freed: no allocated
  example exists, so the claim's size difference is 0 and its approach
  \<open>field_misinterpretation\<close>, but the generator compares with the freed record
  (64 - 128) and answers \<open>size_mismatch_smaller\<close>.
\<close>

theorem generateStrategyForBug_freed_example_counterexample:
  "map_of (activeBugs confusedAfterFree) 1 =
     Some \<lparr>b_id = 1, b_type = TYPE_CONFUSION, b_sourceId = 1, b_source = 0,
           b_overflowSize = None, b_wrongType = Some ''Bar'', b_timestamp = 4,
           b_impact = \<lparr>severity = Some Unknown,
                        impact_notes = Some ''No examples of Bar available for comparison'',
                        corruptedAllocation = None, reusingAllocation = None,
                        originalType = Some ''Foo'', confusedType = Some ''Bar'',
                        exampleAllocation = None\<rparr>\<rparr>
   \<and> allocations (analyzer confusedAfterFree) = [(1, 0), (2, 1)]
   \<and> a_type (objects (analyzer confusedAfterFree) 1) = ''Bar''
   \<and> a_status (objects (analyzer confusedAfterFree) 1) = Freed
   \<and> getActiveAllocations (analyzer confusedAfterFree) = [0]
   \<and> a_type (objects (analyzer confusedAfterFree) 0) = ''Foo''
   \<and> claimedSizeDiff 0 (Some ''Bar'') confusedAfterFree = 0
   \<and> claimedApproach 0 = ''field_misinterpretation''
   \<and> map_sum id st_approach
         (generateStrategyForBug undefined undefined undefined 1 confusedAfterFree)
       = Inr (Some ''size_mismatch_smaller'')"
proof -
  have t: "a_type (objects (analyzer confusedAfterFree) 1) = ''Bar''"
    "a_status (objects (analyzer confusedAfterFree) 1) = Freed"
    "a_type (objects (analyzer confusedAfterFree) 0) = ''Foo''"
    "getActiveAllocations (analyzer confusedAfterFree) = [0]"
    using confusedAfterFree_heap by (simp_all add: getActiveAllocations_def)
  have c: "claimedApproach 0 = ''field_misinterpretation''"
    by (simp add: claimedApproach_def)
  show ?thesis
    by (intro conjI confusedAfterFree_bug(1) confusedAfterFree_heap(1) t c
        confusedAfterFree_claimed confusedAfterFree_strategy)
qed

theorem generateStrategyForBug_typeConfusion_witness:
  "\<forall>overflowBuilder uafBuilder genericBuilder.
     \<exists>st. generateStrategyForBug overflowBuilder uafBuilder genericBuilder 1 confusedAfterFree
            = Inr st
        \<and> st_approach st = Some ''size_mismatch_smaller''
        \<and> map p_type (st_phases st) = [''preparation'', ''confusion_setup'', ''exploit'']"
proof (intro allI)
  fix overflowBuilder uafBuilder genericBuilder
  let ?bug = "\<lparr>b_id = 1, b_type = TYPE_CONFUSION, b_sourceId = 1, b_source = 0,
           b_overflowSize = None, b_wrongType = Some ''Bar'', b_timestamp = 4,
           b_impact = \<lparr>severity = Some Unknown,
                        impact_notes = Some ''No examples of Bar available for comparison'',
                        corruptedAllocation = None, reusingAllocation = None,
                        originalType = Some ''Foo'', confusedType = Some ''Bar'',
                        exampleAllocation = None\<rparr>\<rparr>"
  have kind: "b_type ?bug = TYPE_CONFUSION" by simp
  have source: "map_of (allocations (analyzer confusedAfterFree)) (b_sourceId ?bug) = Some 0"
    by (simp add: confusedAfterFree_heap(1))
  have sizeDiff: "(- 64::int) =
        (case find (\<lambda>r. Some (a_type (objects (analyzer confusedAfterFree) r)) = b_wrongType ?bug)
                (map snd (allocations (analyzer confusedAfterFree))) of
           None \<Rightarrow> 0
         | Some example \<Rightarrow>
             a_size (objects (analyzer confusedAfterFree) 0)
             - a_size (objects (analyzer confusedAfterFree) example))"
    using confusedAfterFree_heap(2,3) by (simp add: confusedAfterFree_heap(1))
  from generateStrategyForBug_typeConfusion [OF confusedAfterFree_bug(1) kind source sizeDiff,
      of overflowBuilder uafBuilder genericBuilder]
  obtain st where g: "generateStrategyForBug overflowBuilder uafBuilder genericBuilder 1
        confusedAfterFree = Inr st"
    and a: "st_approach st = Some (if (- 64::int) > 0 then ''size_mismatch_larger''
                              else if (- 64::int) < 0 then ''size_mismatch_smaller''
                              else ''field_misinterpretation'')"
    and p: "map p_type (st_phases st) = [''preparation'', ''confusion_setup'', ''exploit'']"
    by (elim exE conjE)
  from a have a': "st_approach st = Some ''size_mismatch_smaller''" by simp
  from g a' p
  show "\<exists>st. generateStrategyForBug overflowBuilder uafBuilder genericBuilder 1 confusedAfterFree
            = Inr st
        \<and> st_approach st = Some ''size_mismatch_smaller''
        \<and> map p_type (st_phases st) = [''preparation'', ''confusion_setup'', ''exploit'']"
    by (intro exI [of _ st] conjI)
qed

end
